theory Spec2Isabelle
  imports Complex_Main "HOL-Library.Sublist" "HOL-Library.Multiset"
begin

section \<open>Calendar days and the key-value store\<close>

text \<open>
  Check-in dates are the strings \<^verbatim>\<open>new Date().toISOString().split('T')[0]\<close>, that is
  date-only ISO strings \<^verbatim>\<open>YYYY-MM-DD\<close>. \<^verbatim>\<open>new Date(s)\<close> reads such a string as
  midnight UTC of that day, so \<^verbatim>\<open>getTime()\<close> is the day's number (days since
  1970-01-01) times the milliseconds of a day. A date is modelled by its day number;
  the millisecond arithmetic of the source is kept as written.
\<close>

type_synonym day = int

definition msPerDay :: int where
  "msPerDay = 1000 * 60 * 60 * 24"

definition getTime :: "day \<Rightarrow> int" where
  "getTime d = d * msPerDay"

text \<open>
  The stored streak object \<^verbatim>\<open>{ current, longest, lastDate }\<close>; \<^verbatim>\<open>lastDate\<close> is
  \<^verbatim>\<open>null\<close> (\<open>None\<close>) before the first check-in.
\<close>

record streak =
  current :: int
  longest :: int
  lastDate :: "day option"

text \<open>
  The part of the key-value store that holds streak objects: \<^verbatim>\<open>kv.get\<close> is the
  lookup (\<open>None\<close> for \<^verbatim>\<open>null\<close>), \<^verbatim>\<open>kv.set\<close> the update.
\<close>

type_synonym kv = "string \<rightharpoonup> streak"

definition getUserKey :: "string \<Rightarrow> string \<Rightarrow> string" where
  "getUserKey userId key = ''user:'' @ userId @ '':'' @ key"

definition initialStreak :: streak where
  "initialStreak = \<lparr>current = 0, longest = 0, lastDate = None\<rparr>"

text \<open>
  The read \<^verbatim>\<open>kv.get(streakKey) || { current: 0, longest: 0, lastDate: null }\<close>, which
  is also what the streak endpoint returns.
\<close>

definition getStreak :: "kv \<Rightarrow> string \<Rightarrow> streak" where
  "getStreak store userId =
     (case store (getUserKey userId ''streak'') of
        Some s \<Rightarrow> s
      | None \<Rightarrow> initialStreak)"

section \<open>Streak updater\<close>

text \<open>
  The body of \<^verbatim>\<open>updateStreak\<close> between the read and the write of the store: the
  branch on \<^verbatim>\<open>lastDate\<close>, the day difference
  \<^verbatim>\<open>Math.floor(diffTime / (1000 * 60 * 60 * 24))\<close>, then the two assignments to
  \<^verbatim>\<open>longest\<close> and \<^verbatim>\<open>lastDate\<close>.
\<close>

definition bumpStreak :: "streak \<Rightarrow> day \<Rightarrow> streak" where
  "bumpStreak s date =
     (let today = getTime date;
          s1 = (case lastDate s of
                  Some lastD \<Rightarrow>
                    (let diffTime = today - getTime lastD;
                         diffDays = diffTime div msPerDay
                     in if diffDays = 1 then s\<lparr>current := current s + 1\<rparr>
                        else if diffDays > 1 then s\<lparr>current := 1\<rparr>
                        else s)
                | None \<Rightarrow> s\<lparr>current := 1\<rparr>);
          s2 = s1\<lparr>longest := max (longest s1) (current s1)\<rparr>
      in s2\<lparr>lastDate := Some date\<rparr>)"

text \<open>
  \<^verbatim>\<open>updateStreak(userId, date)\<close>: read the streak, update it, write it back and
  return it. The store is passed in and returned.
\<close>

definition updateStreak :: "kv \<Rightarrow> string \<Rightarrow> day \<Rightarrow> kv \<times> streak" where
  "updateStreak store userId date =
     (let streakKey = getUserKey userId ''streak'';
          s = bumpStreak (getStreak store userId) date
      in (store(streakKey \<mapsto> s), s))"

text \<open>The invariant of the streak state: both counters are natural numbers and the
  longest run is at least the current one.\<close>

definition streakInv :: "streak \<Rightarrow> bool" where
  "streakInv s = (0 \<le> current s \<and> 0 \<le> longest s \<and> current s \<le> longest s)"

text \<open>Successive calls of \<^verbatim>\<open>updateStreak\<close> for one user, one per listed day, each
  reading what the previous one wrote.\<close>

fun updateStreaks :: "kv \<Rightarrow> string \<Rightarrow> day list \<Rightarrow> kv" where
  "updateStreaks store userId [] = store"
| "updateStreaks store userId (d # ds) =
     updateStreaks (fst (updateStreak store userId d)) userId ds"

section \<open>JavaScript strings and exceptions\<close>

text \<open>
  A JavaScript string is a sequence of UTF-16 code units; \<open>str\<close> embeds an ASCII
  literal, and the emoji of the reply templates are written as their code units.
  \<^verbatim>\<open>s.includes(k)\<close> holds when \<open>k\<close> occurs in \<open>s\<close> as a contiguous run of code
  units.
\<close>

type_synonym jsString = "nat list"

definition str :: "string \<Rightarrow> jsString" where
  "str s = map of_char s"

definition stringIncludes :: "jsString \<Rightarrow> jsString \<Rightarrow> bool" where
  "stringIncludes s searchString = sublist searchString s"

text \<open>
  \<^verbatim>\<open>toLowerCase\<close> belongs to the JavaScript runtime and is a parameter of
  \<open>getResponse\<close> below, so that what is proved holds for whatever the runtime does to
  text outside ASCII. On ASCII text it is the following function, which the concrete
  examples use.
\<close>

definition toLowerCaseAscii :: "jsString \<Rightarrow> jsString" where
  "toLowerCaseAscii s = map (\<lambda>c. if 65 \<le> c \<and> c \<le> 90 then c + 32 else c) s"

text \<open>The exceptions of the runtime that the code below can meet.\<close>

datatype error = TypeError | RangeError

section \<open>Cycle predictor\<close>

text \<open>
  A time value is a number of milliseconds since 1970-01-01T00:00Z or \<^verbatim>\<open>NaN\<close>
  (\<open>None\<close>); a \<^verbatim>\<open>Date\<close> holds a time value of at most \<open>maxTime\<close> in absolute
  value, or \<^verbatim>\<open>NaN\<close> (an invalid date).
\<close>

definition maxTime :: int where
  "maxTime = 8640000000000000"

definition timeClip :: "int \<Rightarrow> int option" where
  "timeClip t = (if \<bar>t\<bar> \<le> maxTime then Some t else None)"

text \<open>
  \<^verbatim>\<open>new Date(s).getTime()\<close> for a string \<open>s\<close>. \<^verbatim>\<open>Date.parse\<close> belongs to the
  JavaScript runtime and is the parameter \<open>dateParse\<close>, with \<open>None\<close> for a string that
  does not parse.
\<close>

definition newDate :: "(jsString \<Rightarrow> int option) \<Rightarrow> jsString \<Rightarrow> int option" where
  "newDate dateParse s = (case dateParse s of None \<Rightarrow> None | Some t \<Rightarrow> timeClip t)"

text \<open>
  \<open>isoDate\<close> is the day number of the date \<^verbatim>\<open>YYYY-MM-DD\<close> in the proleptic Gregorian
  calendar. On a date-only string with a month from 1 to 12 and a day of that month,
  \<^verbatim>\<open>Date.parse\<close> is the following \<open>parseIsoDate\<close> (midnight UTC of that day); it is
  used in the concrete examples, on such strings and on a string without a digit, which
  does not parse.
\<close>

definition isoDate :: "int \<Rightarrow> int \<Rightarrow> int \<Rightarrow> day" where
  "isoDate y m d =
     (let y' = (if m \<le> 2 then y - 1 else y);
          era = y' div 400;
          yoe = y' - era * 400;
          doy = (153 * (if m > 2 then m - 3 else m + 9) + 2) div 5 + d - 1;
          doe = yoe * 365 + yoe div 4 - yoe div 100 + doy
      in era * 146097 + doe - 719468)"

definition digitValue :: "nat \<Rightarrow> int option" where
  "digitValue c = (if 48 \<le> c \<and> c \<le> 57 then Some (int c - 48) else None)"

fun numberValue :: "int \<Rightarrow> jsString \<Rightarrow> int option" where
  "numberValue acc [] = Some acc"
| "numberValue acc (c # cs) =
     (case digitValue c of None \<Rightarrow> None | Some v \<Rightarrow> numberValue (10 * acc + v) cs)"

definition daysInMonth :: "int \<Rightarrow> int \<Rightarrow> int" where
  "daysInMonth y m =
     (if m = 2 then (if y mod 4 = 0 \<and> (y mod 400 = 0 \<or> y mod 100 \<noteq> 0) then 29 else 28)
      else if m = 4 \<or> m = 6 \<or> m = 9 \<or> m = 11 then 30
      else 31)"

definition parseIsoDate :: "jsString \<Rightarrow> int option" where
  "parseIsoDate s =
     (if length s = 10 \<and> s ! 4 = 45 \<and> s ! 7 = 45 then
        (case (numberValue 0 (take 4 s), numberValue 0 (take 2 (drop 5 s)),
               numberValue 0 (drop 8 s)) of
           (Some y, Some m, Some d) \<Rightarrow>
             if 1 \<le> m \<and> m \<le> 12 \<and> 1 \<le> d \<and> d \<le> daysInMonth y m
             then Some (getTime (isoDate y m d))
             else None
         | _ \<Rightarrow> None)
      else None)"

text \<open>
  The local time zone of the runtime: the offset of local time from UTC, in
  milliseconds, at a UTC time and at a local time.
\<close>

record timeZone =
  offsetAtUTC :: "int \<Rightarrow> int"
  offsetAtLocal :: "int \<Rightarrow> int"

text \<open>
  \<^verbatim>\<open>d.setDate(d.getDate() + n)\<close> for a date with time value \<open>tv\<close>. \<^verbatim>\<open>getDate\<close>
  is the day of the month of the local time; \<^verbatim>\<open>setDate\<close> makes the day that many
  days after the last day of the previous month, at the same local time of day, which is
  \<open>n\<close> days after the local time; the result is taken back to UTC with the offset at
  the new local time and clipped. An invalid date stays invalid.
\<close>

definition setDatePlus :: "timeZone \<Rightarrow> int option \<Rightarrow> int \<Rightarrow> int option" where
  "setDatePlus zone tv n =
     (case tv of
        None \<Rightarrow> None
      | Some t \<Rightarrow>
          (let localTime = t + offsetAtUTC zone t;
               newLocal = localTime + n * msPerDay
           in timeClip (newLocal - offsetAtLocal zone newLocal)))"

text \<open>
  The day of \<^verbatim>\<open>toISOString().split('T')[0]\<close> for a valid time; for an invalid date
  \<^verbatim>\<open>toISOString\<close> throws a \<^verbatim>\<open>RangeError\<close>.
\<close>

definition toISODate :: "int \<Rightarrow> day" where
  "toISODate t = t div msPerDay"

text \<open>
  A stored period object (its \<^verbatim>\<open>userId\<close> and \<^verbatim>\<open>timestamp\<close> play no part and
  are left out) and the prediction object. The start date is any non-empty string of
  the request.
\<close>

record period =
  periodId :: jsString
  startDate :: jsString
  endDate :: "jsString option"
  cycleLength :: int
  symptoms :: "jsString list"

record prediction =
  nextPeriodDate :: day
  averageCycleLength :: int
  daysUntilNext :: int

text \<open>
  The comparison \<^verbatim>\<open>(a, b) => new Date(b.startDate).getTime() - new Date(a.startDate).getTime()\<close>,
  \<^verbatim>\<open>NaN\<close> when one of the dates is invalid.
\<close>

definition comparePeriods :: "(jsString \<Rightarrow> int option) \<Rightarrow> period \<Rightarrow> period \<Rightarrow> int option" where
  "comparePeriods dateParse a b =
     (case (newDate dateParse (startDate b), newDate dateParse (startDate a)) of
        (Some tb, Some ta) \<Rightarrow> Some (tb - ta)
      | _ \<Rightarrow> None)"

text \<open>
  \<^verbatim>\<open>Array.prototype.sort\<close> with a comparison function is a stable sort, here by
  insertion; a comparison that gives \<^verbatim>\<open>NaN\<close> counts as 0. Every stable sort gives
  the same array when the comparison is consistent. It is not when start dates that
  parse are mixed with start dates that do not: the order is then up to the runtime,
  and nothing is stated about such lists below.
\<close>

fun insertSorted :: "('a \<Rightarrow> 'a \<Rightarrow> int option) \<Rightarrow> 'a \<Rightarrow> 'a list \<Rightarrow> 'a list" where
  "insertSorted compare x [] = [x]"
| "insertSorted compare x (y # ys) =
     (if (case compare x y of Some v \<Rightarrow> v \<le> 0 | None \<Rightarrow> True)
      then x # y # ys
      else y # insertSorted compare x ys)"

fun arraySort :: "('a \<Rightarrow> 'a \<Rightarrow> int option) \<Rightarrow> 'a list \<Rightarrow> 'a list" where
  "arraySort compare [] = []"
| "arraySort compare (x # xs) = insertSorted compare x (arraySort compare xs)"

definition sortPeriods :: "(jsString \<Rightarrow> int option) \<Rightarrow> period list \<Rightarrow> period list" where
  "sortPeriods dateParse periods = arraySort (comparePeriods dateParse) periods"

text \<open>
  \<^verbatim>\<open>Math.floor((current.getTime() - previous.getTime()) / (1000 * 60 * 60 * 24))\<close>,
  \<^verbatim>\<open>NaN\<close> when one of the dates is invalid.
\<close>

definition daysBetween :: "int option \<Rightarrow> int option \<Rightarrow> int option" where
  "daysBetween cur previous =
     (case (cur, previous) of
        (Some c, Some p) \<Rightarrow> Some ((c - p) div msPerDay)
      | _ \<Rightarrow> None)"

text \<open>
  The loop \<^verbatim>\<open>for (let i = 0; i < periods.length - 1; i++)\<close> with its two
  accumulators; both comparisons are false of \<^verbatim>\<open>NaN\<close>.
\<close>

function cycleLoop ::
  "(jsString \<Rightarrow> int option) \<Rightarrow> period list \<Rightarrow> nat \<Rightarrow> int \<times> int \<Rightarrow> int \<times> int" where
  "cycleLoop dateParse periods i (totalCycleLength, cycleCount) =
     (if int i < int (length periods) - 1 then
        (let cur = newDate dateParse (startDate (periods ! i));
             previous = newDate dateParse (startDate (periods ! (i + 1)));
             acc = (case daysBetween cur previous of
                      Some diff \<Rightarrow>
                        if diff > 0 \<and> diff < 60
                        then (totalCycleLength + diff, cycleCount + 1)
                        else (totalCycleLength, cycleCount)
                    | None \<Rightarrow> (totalCycleLength, cycleCount))
         in cycleLoop dateParse periods (i + 1) acc)
      else (totalCycleLength, cycleCount))"
  by pat_completeness auto
termination
  by (relation "measure (\<lambda>(dateParse, periods, i, acc). length periods - i)") auto

text \<open>
  The handler of \<^verbatim>\<open>GET /period/:userId\<close> (\<^verbatim>\<open>getPeriodData\<close> in the local API,
  with the same body), applied to the list \<^verbatim>\<open>kv.getByPrefix\<close> returned, with the
  runtime's \<^verbatim>\<open>Date.parse\<close> and time zone and the current time \<open>now\<close> in
  milliseconds as arguments. \<open>Inr\<close> holds the \<^verbatim>\<open>periods\<close> and the
  \<^verbatim>\<open>prediction\<close> of the response, \<open>None\<close> for \<^verbatim>\<open>null\<close>. \<open>Inl RangeError\<close> is
  the exception of \<^verbatim>\<open>toISOString\<close> on an invalid date, which the server answers
  with HTTP 500 and the local API by rejecting. \<^verbatim>\<open>Math.round\<close> rounds halves up, as
  \<open>round\<close> does.
\<close>

definition getPeriodData ::
  "(jsString \<Rightarrow> int option) \<Rightarrow> timeZone \<Rightarrow> int \<Rightarrow> period list \<Rightarrow>
     error + period list \<times> prediction option" where
  "getPeriodData dateParse zone now periods0 =
     (if length periods0 = 0 then Inr ([], None)
      else
        (let periods = sortPeriods dateParse periods0;
             (totalCycleLength, cycleCount) = cycleLoop dateParse periods 0 (0, 0);
             avgCycleLength =
               (if cycleCount > 0
                then round (real_of_int totalCycleLength / real_of_int cycleCount)
                else 28);
             lastPeriod = periods ! 0;
             lastDate = newDate dateParse (startDate lastPeriod);
             nextDate = setDatePlus zone lastDate avgCycleLength
         in case nextDate of
              None \<Rightarrow> Inl RangeError
            | Some next \<Rightarrow>
                Inr (periods,
                     Some \<lparr>nextPeriodDate = toISODate next,
                           averageCycleLength = avgCycleLength,
                           daysUntilNext = (next - now) div msPerDay\<rparr>)))"

text \<open>A period with the given start date string, with the defaults the server stores.\<close>

definition periodOn :: "jsString \<Rightarrow> period" where
  "periodOn s =
     \<lparr>periodId = [], startDate = s, endDate = None, cycleLength = 28, symptoms = []\<rparr>"

text \<open>
  A time zone with one offset at all times (UTC has the offset 0), and the offsets of
  America/New_York around its change to daylight time on 10 March 2024, at 07:00 UTC:
  five hours behind UTC before it, four hours behind from then on.
\<close>

definition fixedZone :: "int \<Rightarrow> timeZone" where
  "fixedZone off = \<lparr>offsetAtUTC = (\<lambda>t. off), offsetAtLocal = (\<lambda>t. off)\<rparr>"


subsection \<open>The specification's wording\<close>

text \<open>
  The start time of a period whose start date parses. The differences in whole days of
  adjacent start times (newer minus older) of a list of times, those of them that lie
  strictly between 0 and 60, and the rounded mean of a list of differences, 28 when the
  list is empty.
\<close>

definition startTime :: "(jsString \<Rightarrow> int option) \<Rightarrow> period \<Rightarrow> int" where
  "startTime dateParse p =
     (case newDate dateParse (startDate p) of Some t \<Rightarrow> t | None \<Rightarrow> 0)"

definition spec_adjacentDiffs :: "int list \<Rightarrow> int list" where
  "spec_adjacentDiffs ts =
     map (\<lambda>(newer, older). (newer - older) div msPerDay) (zip ts (tl ts))"

definition spec_includedDiffs :: "int list \<Rightarrow> int list" where
  "spec_includedDiffs ts =
     filter (\<lambda>diffDays. 0 < diffDays \<and> diffDays < 60) (spec_adjacentDiffs ts)"

definition spec_average :: "int list \<Rightarrow> int" where
  "spec_average included =
     (if included = [] then 28
      else round (real_of_int (sum_list included) / real (length included)))"

section \<open>Chat bot: response selection\<close>

text \<open>
  \<^verbatim>\<open>type QuestionType = 'breakfast' | 'lunch' | 'dinner' | 'mood' | 'none'\<close>, with
  \<open>NoQuestion\<close> for \<^verbatim>\<open>'none'\<close>, and the string each value is.
\<close>

datatype QuestionType = Breakfast | Lunch | Dinner | Mood | NoQuestion

fun questionKey :: "QuestionType \<Rightarrow> string" where
  "questionKey Breakfast = ''breakfast''"
| "questionKey Lunch = ''lunch''"
| "questionKey Dinner = ''dinner''"
| "questionKey Mood = ''mood''"
| "questionKey NoQuestion = ''none''"

text \<open>The table \<^verbatim>\<open>responses: Record<string, string[]>\<close>, in the order of the source.\<close>

definition responses :: "(string \<times> jsString list) list" where
  "responses =
     [
      (''breakfast'',
        [str ''Great! A good breakfast fuels your day. What did you have? '' @ [0xD83D, 0xDE0A],
         str ''Awesome! Starting the day with food is so important for your energy and mood!'']),
      (''nobreakfast'',
        [str ''Oh honey, why did you skip breakfast? It's the most important meal of the day! '' @ [0xD83C, 0xDF73] @ str '' Please try to eat something small.'',
         str ''Is there a reason you didn't eat, my dear? Your body needs energy! Try to grab a quick snack if you can. '' @ [0xD83C, 0xDF4C]]),
      (''lunch'',
        [str ''Wonderful! Taking time to eat is an act of self-care. Hope it was tasty! '' @ [0xD83C, 0xDF71],
         str ''That's great! Proper nutrition helps with mood regulation. What did you enjoy?'']),
      (''nolunch'',
        [str ''Why didn't you have lunch, sweetie? Skipping meals can affect your mood. '' @ [0xD83E, 0xDD57] @ str '' Please eat something to fuel your body!'',
         str ''Oh no! Is everything okay? Try to take a break and eat something. You deserve to be nourished! '' @ [0xD83E, 0xDD6A]]),
      (''dinner'',
        [str ''Perfect! Ending the day with a good meal. Hope you're relaxing now! '' @ [0xD83C, 0xDF19],
         str ''That's wonderful! A good dinner can help you unwind from the day.'']),
      (''nodinner'',
        [str ''Why haven't you had dinner yet? It's important to eat before bed. '' @ [0xD83C, 0xDF19] @ str '' Please find something to eat!'',
         str ''Is there a reason you skipped dinner? A light meal can help you sleep better. Please take care of yourself! '' @ [0xD83E, 0xDD63]]),
      (''funfact'',
        [str ''Fun fact: Smiling, even when you don't feel like it, can actually improve your mood! '' @ [0xD83D, 0xDE0A],
         str ''Did you know? Laughing for 10-15 minutes can burn approximately 40 calories! '' @ [0xD83D, 0xDE04],
         str ''Fun fact: Your brain uses 20% of your body's energy, even though it's only 2% of your body weight! '' @ [0xD83E, 0xDDE0],
         str ''Did you know? Chocolate releases endorphins - the same feel-good chemicals released when you're happy! '' @ [0xD83C, 0xDF6B],
         str ''Fun fact: Hugging for 20 seconds releases oxytocin, which can make you feel happier! '' @ [0xD83E, 0xDD17],
         str ''Did you know? Listening to music can boost your immune system and reduce stress! '' @ [0xD83C, 0xDFB5],
         str ''Fun fact: Plants in your room can reduce stress levels by up to 60%! '' @ [0xD83C, 0xDF31]]),
      (''yes'',
        [str ''That's wonderful! I'm so glad to hear that! '' @ [0xD83D, 0xDE0A],
         str ''Great! Keep up the good self-care! '' @ [0xD83D, 0xDCAA]]),
      (''no'',
        [str ''That's okay! What can I help you with? I'm here for you. '' @ [0xD83D, 0xDC99],
         str ''No worries! Would you like to talk about anything?'']),
      (''sad'',
        [str ''I'm sorry you're feeling down, honey. Remember, it's okay to have difficult days. Would you like to try a breathing exercise?'',
         str ''Your feelings are valid, my dear. What's one small thing that might help you feel a bit better right now?'']),
      (''happy'',
        [str ''That's wonderful! I'm so glad you're feeling good! What's bringing you joy today? '' @ [0xD83D, 0xDE0A],
         str ''Awesome! It's great to hear you're in a positive space. Keep that energy flowing!'']),
      (''stressed'',
        [str ''Stress can be tough. Remember to breathe, darling. Have you tried the relaxing games in the app?'',
         str ''Let's take it one step at a time. What's the main thing on your mind right now?'']),
      (''anxious'',
        [str ''Anxiety is challenging, but you're not alone. Try the 4-7-8 breathing technique: breathe in for 4, hold for 7, out for 8.'',
         str ''I hear you. Sometimes when we're anxious, grounding techniques help. Can you name 5 things you can see around you?'']),
      (''default'',
        [str ''I'm here to listen, honey. Tell me more about how you're feeling.'',
         str ''Thank you for sharing. Your mental health matters. What can I help you with today?'',
         str ''I appreciate you opening up. Would you like to explore the mood tracker or journal features?'']),
      (''crisis'',
        [str ''I'm really concerned about you. Please know that you're not alone, and there are people who care about you and want to help. I'm opening your emergency contacts now - please reach out to someone you trust or call a crisis helpline immediately. Your life matters. '' @ [0xD83D, 0xDC99],
         str ''I hear that you're going through an incredibly difficult time. Please don't face this alone. I'm showing you emergency resources right now. There are people trained to help you through this. You deserve support and care. '' @ [0xD83E, 0xDEC2]])
     ]"

text \<open>
  \<^verbatim>\<open>xs[Math.floor(Math.random() * xs.length)]\<close>, with \<open>u\<close> the value of
  \<^verbatim>\<open>Math.random()\<close>, a number from 0 up to but not including 1; an index outside the
  array reads \<^verbatim>\<open>undefined\<close> (\<open>None\<close>).
\<close>

definition pick :: "real \<Rightarrow> 'a list \<Rightarrow> 'a option" where
  "pick u xs =
     (let i = \<lfloor>u * real (length xs)\<rfloor>
      in if 0 \<le> i \<and> i < int (length xs) then Some (xs ! nat i) else None)"

text \<open>
  \<^verbatim>\<open>responses[key][Math.floor(Math.random() * responses[key].length)]\<close>: for a key
  the table does not have, \<^verbatim>\<open>responses[key]\<close> is \<^verbatim>\<open>undefined\<close> and reading its
  \<^verbatim>\<open>length\<close> throws a \<^verbatim>\<open>TypeError\<close>.
\<close>

definition pickResponse :: "string \<Rightarrow> real \<Rightarrow> error + jsString option" where
  "pickResponse key u =
     (case map_of responses key of
        None \<Rightarrow> Inl TypeError
      | Some templates \<Rightarrow> Inr (pick u templates))"

text \<open>
  What one call of \<^verbatim>\<open>getResponse\<close> does: the string it returns, the value of
  \<^verbatim>\<open>lastQuestion\<close> after it, and whether it called \<^verbatim>\<open>onEmergency\<close>.
\<close>

record outcome =
  reply :: "jsString option"
  nextQuestion :: QuestionType
  emergencyTriggered :: bool

definition crisisKeywords :: "jsString list" where
  "crisisKeywords = map str
     [''suicide'', ''suicidal'', ''kill myself'', ''end my life'', ''want to die'',
      ''die'', ''death'', ''dying'', ''dead'', ''harm myself'', ''hurt myself'',
      ''no reason to live'', ''better off dead'', ''end it all'']"

text \<open>\<^verbatim>\<open>words.some(w => lowercaseMessage.includes(w))\<close>.\<close>

definition includesSome :: "jsString \<Rightarrow> jsString list \<Rightarrow> bool" where
  "includesSome lowercaseMessage ws = list_ex (\<lambda>w. stringIncludes lowercaseMessage w) ws"

text \<open>The chain of general keyword tests that ends \<^verbatim>\<open>getResponse\<close>.\<close>

definition keywordResponse :: "jsString \<Rightarrow> real \<Rightarrow> error + jsString option" where
  "keywordResponse lowercaseMessage u =
     (if stringIncludes lowercaseMessage (str ''fun fact'')
          \<or> stringIncludes lowercaseMessage (str ''fact'')
          \<or> stringIncludes lowercaseMessage (str ''tell me something'')
      then pickResponse ''funfact'' u
      else if stringIncludes lowercaseMessage (str ''sad'')
          \<or> stringIncludes lowercaseMessage (str ''down'')
          \<or> stringIncludes lowercaseMessage (str ''depressed'')
      then pickResponse ''sad'' u
      else if stringIncludes lowercaseMessage (str ''happy'')
          \<or> stringIncludes lowercaseMessage (str ''good'')
          \<or> stringIncludes lowercaseMessage (str ''great'')
      then pickResponse ''happy'' u
      else if stringIncludes lowercaseMessage (str ''stress'')
          \<or> stringIncludes lowercaseMessage (str ''overwhelm'')
      then pickResponse ''stressed'' u
      else if stringIncludes lowercaseMessage (str ''anxious'')
          \<or> stringIncludes lowercaseMessage (str ''anxiety'')
          \<or> stringIncludes lowercaseMessage (str ''worry'')
      then pickResponse ''anxious'' u
      else pickResponse ''default'' u)"

text \<open>
  \<^verbatim>\<open>getResponse(userMessage)\<close>, with the state \<^verbatim>\<open>lastQuestion\<close> it reads, the
  runtime's \<^verbatim>\<open>toLowerCase\<close> and the random number \<open>u\<close> as arguments. A thrown
  \<^verbatim>\<open>TypeError\<close> is the result \<open>Inl TypeError\<close>.
\<close>

definition getResponse ::
  "(jsString \<Rightarrow> jsString) \<Rightarrow> real \<Rightarrow> QuestionType \<Rightarrow> jsString \<Rightarrow> error + outcome" where
  "getResponse toLowerCase u lastQuestion userMessage =
     (let lowercaseMessage = toLowerCase userMessage;
          hasCrisisKeyword = includesSome lowercaseMessage crisisKeywords;
          general =
            (case keywordResponse lowercaseMessage u of
               Inl e \<Rightarrow> Inl e
             | Inr r \<Rightarrow>
                 Inr \<lparr>reply = r, nextQuestion = lastQuestion, emergencyTriggered = False\<rparr>)
      in if hasCrisisKeyword then
           (case pickResponse ''crisis'' u of
              Inl e \<Rightarrow> Inl e
            | Inr r \<Rightarrow>
                Inr \<lparr>reply = r, nextQuestion = lastQuestion, emergencyTriggered = True\<rparr>)
         else if lastQuestion \<noteq> NoQuestion then
           (if includesSome lowercaseMessage (map str [''yes'', ''yeah'', ''yep'', ''sure''])
            then
              (case pickResponse (questionKey lastQuestion) u of
                 Inl e \<Rightarrow> Inl e
               | Inr r \<Rightarrow>
                   Inr \<lparr>reply = r, nextQuestion = NoQuestion, emergencyTriggered = False\<rparr>)
            else if includesSome lowercaseMessage (map str [''no'', ''nah'', ''nope''])
            then
              (case pickResponse (''no'' @ questionKey lastQuestion) u of
                 Inl e \<Rightarrow> Inl e
               | Inr r \<Rightarrow>
                   Inr \<lparr>reply = r, nextQuestion = NoQuestion, emergencyTriggered = False\<rparr>)
            else general)
         else general)"

text \<open>The question the greeting effect stores in \<^verbatim>\<open>lastQuestion\<close>, from the hour.\<close>

definition greetingQuestion :: "int \<Rightarrow> QuestionType" where
  "greetingQuestion hour =
     (if hour < 12 then Breakfast else if hour < 18 then Lunch else Dinner)"

text \<open>
  The values \<^verbatim>\<open>lastQuestion\<close> takes: its initial value, the one the greeting effect
  stores, and the one a call of \<^verbatim>\<open>getResponse\<close> leaves.
\<close>

inductive reachableQuestion :: "QuestionType \<Rightarrow> bool" where
  initial: "reachableQuestion NoQuestion"
| greeting: "reachableQuestion (greetingQuestion hour)"
| answered: "reachableQuestion q \<Longrightarrow> getResponse toLowerCase u q userMessage = Inr out \<Longrightarrow>
     reachableQuestion (nextQuestion out)"

subsection \<open>The specification's wording\<close>

text \<open>
  The ordered table of topics, each a set of keywords and the key of its template set,
  and the reply of the first topic one of whose keywords the lower-cased message
  contains, the default templates' when there is none.
\<close>

definition spec_topicTable :: "(jsString list \<times> string) list" where
  "spec_topicTable =
     [(map str [''fun fact'', ''fact'', ''tell me something''], ''funfact''),
      (map str [''sad'', ''down'', ''depressed''], ''sad''),
      (map str [''happy'', ''good'', ''great''], ''happy''),
      (map str [''stress'', ''overwhelm''], ''stressed''),
      (map str [''anxious'', ''anxiety'', ''worry''], ''anxious'')]"

definition spec_keywordResponse :: "jsString \<Rightarrow> real \<Rightarrow> error + jsString option" where
  "spec_keywordResponse lowercaseMessage u =
     (case find (\<lambda>(keywords, key). includesSome lowercaseMessage keywords) spec_topicTable of
        Some (keywords, key) \<Rightarrow> pickResponse key u
      | None \<Rightarrow> pickResponse ''default'' u)"

definition topicKeys :: "string list" where
  "topicKeys = [''funfact'', ''sad'', ''happy'', ''stressed'', ''anxious'', ''default'']"

section \<open>Streak updater: proofs\<close>

lemma msPerDay_pos: "0 < msPerDay"
  by (simp add: msPerDay_def)

text \<open>On day numbers the floor of the millisecond difference is the difference of days.\<close>

lemma diffDays_eq: "(getTime d - getTime l) div msPerDay = d - l"
proof -
  have "getTime d - getTime l = (d - l) * msPerDay"
    by (simp add: getTime_def algebra_simps)
  then show ?thesis
    using msPerDay_pos by simp
qed

lemma bumpStreak_first:
  "lastDate s = None \<Longrightarrow>
   bumpStreak s d = \<lparr>current = 1, longest = max (longest s) 1, lastDate = Some d\<rparr>"
  by (simp add: bumpStreak_def)

lemma bumpStreak_next:
  "lastDate s = Some l \<Longrightarrow> d - l = 1 \<Longrightarrow>
   bumpStreak s d =
     \<lparr>current = current s + 1, longest = max (longest s) (current s + 1), lastDate = Some d\<rparr>"
  by (simp add: bumpStreak_def diffDays_eq)

lemma bumpStreak_gap:
  "lastDate s = Some l \<Longrightarrow> 1 < d - l \<Longrightarrow>
   bumpStreak s d = \<lparr>current = 1, longest = max (longest s) 1, lastDate = Some d\<rparr>"
  by (simp add: bumpStreak_def diffDays_eq)

lemma bumpStreak_back:
  "lastDate s = Some l \<Longrightarrow> d - l < 1 \<Longrightarrow>
   bumpStreak s d =
     \<lparr>current = current s, longest = max (longest s) (current s), lastDate = Some d\<rparr>"
  by (simp add: bumpStreak_def diffDays_eq)

lemma bumpStreak_lastDate: "lastDate (bumpStreak s d) = Some d"
  by (simp add: bumpStreak_def Let_def split: option.splits)

lemma bumpStreak_longest_ge: "current (bumpStreak s d) \<le> longest (bumpStreak s d)"
  by (simp add: bumpStreak_def Let_def split: option.splits)

lemma bumpStreak_inv: "streakInv s \<Longrightarrow> streakInv (bumpStreak s d)"
  by (auto simp add: bumpStreak_def streakInv_def Let_def split: option.splits)

lemma bumpStreak_same_day: "bumpStreak (bumpStreak s d) d = bumpStreak s d"
proof -
  have l: "lastDate (bumpStreak s d) = Some d"
    by (rule bumpStreak_lastDate)
  have "d - d < (1::int)"
    by simp
  from bumpStreak_back [OF l this] show ?thesis
    using bumpStreak_longest_ge [of s d] l by (simp add: max_def)
qed

lemma snd_updateStreak:
  "snd (updateStreak store userId d) = bumpStreak (getStreak store userId) d"
  by (simp add: updateStreak_def Let_def)

lemma fst_updateStreak:
  "fst (updateStreak store userId d) =
   store(getUserKey userId ''streak'' \<mapsto> bumpStreak (getStreak store userId) d)"
  by (simp add: updateStreak_def Let_def)

text \<open>A call reads back what the previous call wrote.\<close>

lemma getStreak_step:
  "getStreak (fst (updateStreak store userId d)) userId = bumpStreak (getStreak store userId) d"
  by (simp add: fst_updateStreak getStreak_def)

lemma getStreak_updateStreaks5:
  "getStreak (updateStreaks store u [a, b, c, d, e]) u =
   bumpStreak (bumpStreak (bumpStreak (bumpStreak (bumpStreak (getStreak store u) a) b) c) d) e"
  by (simp add: getStreak_step)

lemma five_days:
  assumes c: "current s = 0"
    and l: "lastDate s = None \<or> (\<exists>l. lastDate s = Some l \<and> l < d)"
  shows "current (bumpStreak (bumpStreak (bumpStreak (bumpStreak (bumpStreak s d)
           (d + 1)) (d + 2)) (d + 3)) (d + 4)) = 5"
    and "5 \<le> longest (bumpStreak (bumpStreak (bumpStreak (bumpStreak (bumpStreak s d)
           (d + 1)) (d + 2)) (d + 3)) (d + 4))"
proof -
  define s1 where "s1 = bumpStreak s d"
  define s2 where "s2 = bumpStreak s1 (d + 1)"
  define s3 where "s3 = bumpStreak s2 (d + 2)"
  define s4 where "s4 = bumpStreak s3 (d + 3)"
  define s5 where "s5 = bumpStreak s4 (d + 4)"
  have c1: "current s1 = 1"
    using c l unfolding s1_def by (auto simp add: bumpStreak_def Let_def diffDays_eq)
  have l1: "lastDate s1 = Some d"
    unfolding s1_def by (rule bumpStreak_lastDate)
  have c2: "current s2 = 2"
    unfolding s2_def using bumpStreak_next [OF l1, of "d + 1"] c1 by simp
  have l2: "lastDate s2 = Some (d + 1)"
    unfolding s2_def by (rule bumpStreak_lastDate)
  have c3: "current s3 = 3"
    unfolding s3_def using bumpStreak_next [OF l2, of "d + 2"] c2 by simp
  have l3: "lastDate s3 = Some (d + 2)"
    unfolding s3_def by (rule bumpStreak_lastDate)
  have c4: "current s4 = 4"
    unfolding s4_def using bumpStreak_next [OF l3, of "d + 3"] c3 by simp
  have l4: "lastDate s4 = Some (d + 3)"
    unfolding s4_def by (rule bumpStreak_lastDate)
  have c5: "current s5 = 5"
    unfolding s5_def using bumpStreak_next [OF l4, of "d + 4"] c4 by simp
  have "current s5 \<le> longest s5"
    unfolding s5_def by (rule bumpStreak_longest_ge)
  with c5 have g5: "5 \<le> longest s5"
    by simp
  show "current (bumpStreak (bumpStreak (bumpStreak (bumpStreak (bumpStreak s d)
           (d + 1)) (d + 2)) (d + 3)) (d + 4)) = 5"
    using c5 unfolding s5_def s4_def s3_def s2_def s1_def .
  show "5 \<le> longest (bumpStreak (bumpStreak (bumpStreak (bumpStreak (bumpStreak s d)
           (d + 1)) (d + 2)) (d + 3)) (d + 4))"
    using g5 unfolding s5_def s4_def s3_def s2_def s1_def .
qed

text \<open>
  Claim C2. Write \<open>s\<close> for the streak \<^verbatim>\<open>updateStreak\<close> reads and \<open>d - l\<close> for the
  whole-day difference between the event date \<open>d\<close> and the last recorded date \<open>l\<close>.
  If there is no last date, the returned current run is 1; if the difference is 1, it is
  the previous current run plus 1; if the difference exceeds 1, it is 1 whatever the run
  was. Five calls on the consecutive days \<open>d, ..., d + 4\<close>, starting from a current run of
  0 with the first day a first event or a day after the last recorded one, leave a
  current run of 5 and a longest run of at least 5.
\<close>

theorem updateStreak_current_run:
  "(lastDate (getStreak store u) = None \<longrightarrow> current (snd (updateStreak store u d)) = 1)
   \<and> (\<forall>l. lastDate (getStreak store u) = Some l \<and> d - l = 1 \<longrightarrow>
          current (snd (updateStreak store u d)) = current (getStreak store u) + 1)
   \<and> (\<forall>l. lastDate (getStreak store u) = Some l \<and> d - l > 1 \<longrightarrow>
          current (snd (updateStreak store u d)) = 1)
   \<and> (current (getStreak store u) = 0 \<and>
        (lastDate (getStreak store u) = None \<or>
         (\<exists>l. lastDate (getStreak store u) = Some l \<and> l < d)) \<longrightarrow>
        current (getStreak (updateStreaks store u [d, d + 1, d + 2, d + 3, d + 4]) u) = 5 \<and>
        5 \<le> longest (getStreak (updateStreaks store u [d, d + 1, d + 2, d + 3, d + 4]) u))"
proof (intro conjI allI impI)
  assume "lastDate (getStreak store u) = None"
  then show "current (snd (updateStreak store u d)) = 1"
    by (simp add: snd_updateStreak bumpStreak_first)
next
  fix l
  assume "lastDate (getStreak store u) = Some l \<and> d - l = 1"
  then show "current (snd (updateStreak store u d)) = current (getStreak store u) + 1"
    by (simp add: snd_updateStreak bumpStreak_next)
next
  fix l
  assume "lastDate (getStreak store u) = Some l \<and> d - l > 1"
  then show "current (snd (updateStreak store u d)) = 1"
    by (simp add: snd_updateStreak bumpStreak_gap)
next
  assume h: "current (getStreak store u) = 0 \<and>
        (lastDate (getStreak store u) = None \<or>
         (\<exists>l. lastDate (getStreak store u) = Some l \<and> l < d))"
  then show "current (getStreak (updateStreaks store u [d, d + 1, d + 2, d + 3, d + 4]) u) = 5"
    unfolding getStreak_updateStreaks5 by (intro five_days(1)) simp_all
  from h show
    "5 \<le> longest (getStreak (updateStreaks store u [d, d + 1, d + 2, d + 3, d + 4]) u)"
    unfolding getStreak_updateStreaks5 by (intro five_days(2)) simp_all
qed

theorem updateStreak_current_run_witness:
  "current (snd (updateStreak Map.empty ''u1'' 19700)) = 1
   \<and> current (snd (updateStreak
        [getUserKey ''u1'' ''streak'' \<mapsto> \<lparr>current = 3, longest = 7, lastDate = Some 19699\<rparr>]
        ''u1'' 19700)) = 4
   \<and> current (snd (updateStreak
        [getUserKey ''u1'' ''streak'' \<mapsto> \<lparr>current = 3, longest = 7, lastDate = Some 19697\<rparr>]
        ''u1'' 19700)) = 1
   \<and> current (getStreak
        (updateStreaks Map.empty ''u1'' [19700, 19701, 19702, 19703, 19704]) ''u1'') = 5
   \<and> 5 \<le> longest (getStreak
        (updateStreaks Map.empty ''u1'' [19700, 19701, 19702, 19703, 19704]) ''u1'')"
  using updateStreak_current_run [of Map.empty "''u1''" 19700]
    updateStreak_current_run
      [of "[getUserKey ''u1'' ''streak'' \<mapsto> \<lparr>current = 3, longest = 7, lastDate = Some 19699\<rparr>]"
        "''u1''" 19700]
    updateStreak_current_run
      [of "[getUserKey ''u1'' ''streak'' \<mapsto> \<lparr>current = 3, longest = 7, lastDate = Some 19697\<rparr>]"
        "''u1''" 19700]
  by (simp add: getStreak_def initialStreak_def)

text \<open>
  Claim C6. The invariant (both counters at least 0, the longest run at least the
  current run) holds of the initial streak, which is what is read for a user with no
  stored streak, and every call of \<^verbatim>\<open>updateStreak\<close> on a store whose streak satisfies
  it returns, and writes, a streak that satisfies it.
\<close>

theorem streak_invariant:
  "streakInv initialStreak
   \<and> streakInv (getStreak Map.empty u)
   \<and> (streakInv (getStreak store u) \<longrightarrow>
        streakInv (snd (updateStreak store u d)) \<and>
        streakInv (getStreak (fst (updateStreak store u d)) u))"
proof (intro conjI impI)
  show "streakInv initialStreak"
    by (simp add: initialStreak_def streakInv_def)
  then show "streakInv (getStreak Map.empty u)"
    by (simp add: getStreak_def)
next
  assume "streakInv (getStreak store u)"
  then have "streakInv (bumpStreak (getStreak store u) d)"
    by (rule bumpStreak_inv)
  then show "streakInv (snd (updateStreak store u d))"
    and "streakInv (getStreak (fst (updateStreak store u d)) u)"
    by (simp_all add: snd_updateStreak getStreak_step)
qed

theorem streak_invariant_witness:
  "streakInv (snd (updateStreak Map.empty ''u1'' 19700))
   \<and> streakInv (getStreak (fst (updateStreak Map.empty ''u1'' 19700)) ''u1'')"
  using streak_invariant [of "''u1''" Map.empty 19700] by simp

text \<open>Hence the invariant holds after any sequence of check-ins of a new user.\<close>

lemma streakInv_updateStreaks:
  "streakInv (getStreak store u) \<Longrightarrow> streakInv (getStreak (updateStreaks store u ds) u)"
  by (induction ds arbitrary: store) (simp_all add: getStreak_step bumpStreak_inv)

text \<open>
  Claim C7. A second call of \<^verbatim>\<open>updateStreak\<close> with the same event date returns the
  same streak and leaves the same store as the first call: current run, longest run and
  last date are those the first call produced.
\<close>

theorem updateStreak_idempotent:
  "updateStreak (fst (updateStreak store u d)) u d = updateStreak store u d"
proof -
  have "bumpStreak (getStreak (fst (updateStreak store u d)) u) d =
        bumpStreak (getStreak store u) d"
    by (simp add: getStreak_step bumpStreak_same_day)
  then show ?thesis
    by (simp add: prod_eq_iff snd_updateStreak fst_updateStreak)
qed

text \<open>
  Claim C10. When the streak read from the store satisfies the invariant of a streak
  state, has a last date \<open>l\<close>, and the event date \<open>d\<close> is strictly earlier than \<open>l\<close>,
  \<^verbatim>\<open>updateStreak\<close> returns the same current and longest run and records \<open>d\<close> as the
  last date, in the returned streak and in the store: the last date moves backwards.
  (By \<open>streakInv_updateStreaks\<close> every streak that check-ins have written satisfies the
  invariant.)
\<close>

theorem updateStreak_out_of_order:
  assumes inv: "streakInv (getStreak store u)"
    and last: "lastDate (getStreak store u) = Some l"
    and earlier: "d < l"
  shows "current (snd (updateStreak store u d)) = current (getStreak store u)
   \<and> longest (snd (updateStreak store u d)) = longest (getStreak store u)
   \<and> lastDate (snd (updateStreak store u d)) = Some d
   \<and> lastDate (getStreak (fst (updateStreak store u d)) u) = Some d
   \<and> d < l"
proof -
  from earlier have "d - l < 1"
    by simp
  from bumpStreak_back [OF last this]
  have b: "bumpStreak (getStreak store u) d =
     \<lparr>current = current (getStreak store u),
      longest = max (longest (getStreak store u)) (current (getStreak store u)),
      lastDate = Some d\<rparr>" .
  from inv have "max (longest (getStreak store u)) (current (getStreak store u)) =
      longest (getStreak store u)"
    by (simp add: streakInv_def)
  with b earlier show ?thesis
    by (simp add: snd_updateStreak getStreak_step)
qed

theorem updateStreak_out_of_order_witness:
  "current (snd (updateStreak
      [getUserKey ''u1'' ''streak'' \<mapsto> \<lparr>current = 3, longest = 7, lastDate = Some 19700\<rparr>]
      ''u1'' 19695)) = 3
   \<and> longest (snd (updateStreak
      [getUserKey ''u1'' ''streak'' \<mapsto> \<lparr>current = 3, longest = 7, lastDate = Some 19700\<rparr>]
      ''u1'' 19695)) = 7
   \<and> lastDate (snd (updateStreak
      [getUserKey ''u1'' ''streak'' \<mapsto> \<lparr>current = 3, longest = 7, lastDate = Some 19700\<rparr>]
      ''u1'' 19695)) = Some 19695"
  using updateStreak_out_of_order
    [of "[getUserKey ''u1'' ''streak'' \<mapsto> \<lparr>current = 3, longest = 7, lastDate = Some 19700\<rparr>]"
      "''u1''" 19700 19695]
  by (simp add: getStreak_def streakInv_def)

text \<open>The same for the streak left by any sequence of check-ins of a new user.\<close>

lemma out_of_order_after_checkins:
  assumes "lastDate (getStreak (updateStreaks Map.empty u ds) u) = Some l" and "d < l"
  shows "current (snd (updateStreak (updateStreaks Map.empty u ds) u d)) =
           current (getStreak (updateStreaks Map.empty u ds) u)
         \<and> longest (snd (updateStreak (updateStreaks Map.empty u ds) u d)) =
           longest (getStreak (updateStreaks Map.empty u ds) u)
         \<and> lastDate (snd (updateStreak (updateStreaks Map.empty u ds) u d)) = Some d"
proof -
  have "streakInv (getStreak Map.empty u)"
    by (simp add: getStreak_def initialStreak_def streakInv_def)
  then have "streakInv (getStreak (updateStreaks Map.empty u ds) u)"
    by (rule streakInv_updateStreaks)
  with assms show ?thesis
    by (simp add: snd_updateStreak bumpStreak_back streakInv_def)
qed

section \<open>Cycle predictor: proofs\<close>

declare cycleLoop.simps [simp del]

lemma isoDate_epoch: "isoDate 1970 1 1 = 0"
  by (simp add: isoDate_def)

lemmas parse_eval = parseIsoDate_def str_def digitValue_def daysInMonth_def isoDate_def

lemma parseIsoDate_examples:
  "parseIsoDate (str ''2024-01-01'') = Some (getTime 19723)"
  "parseIsoDate (str ''2024-01-29'') = Some (getTime 19751)"
  "parseIsoDate (str ''2024-02-26'') = Some (getTime 19779)"
  "parseIsoDate (str ''2024-04-28'') = Some (getTime 19841)"
  "parseIsoDate (str ''not a date'') = None"
  by (simp_all add: parse_eval)


lemma timeClip_getTime_examples:
  "timeClip (getTime 19723) = Some (getTime 19723)"
  "timeClip (getTime 19751) = Some (getTime 19751)"
  "timeClip (getTime 19779) = Some (getTime 19779)"
  "timeClip (getTime 19841) = Some (getTime 19841)"
  by (simp_all add: timeClip_def getTime_def msPerDay_def maxTime_def)

lemma newDate_examples:
  "newDate parseIsoDate (str ''2024-01-01'') = Some (getTime 19723)"
  "newDate parseIsoDate (str ''2024-01-29'') = Some (getTime 19751)"
  "newDate parseIsoDate (str ''2024-02-26'') = Some (getTime 19779)"
  "newDate parseIsoDate (str ''2024-04-28'') = Some (getTime 19841)"
  "newDate parseIsoDate (str ''not a date'') = None"
  by (simp_all only: newDate_def parseIsoDate_examples timeClip_getTime_examples option.case)

subsection \<open>The sort\<close>

lemma startTime_Some: "newDate dateParse (startDate p) = Some t \<Longrightarrow> startTime dateParse p = t"
  by (simp add: startTime_def)

lemma newDate_startTime:
  "newDate dateParse (startDate p) \<noteq> None \<Longrightarrow>
   newDate dateParse (startDate p) = Some (startTime dateParse p)"
  by (auto simp add: startTime_def)



lemma set_insertSorted: "set (insertSorted compare x ys) = insert x (set ys)"
  by (induction ys) auto

lemma set_arraySort: "set (arraySort compare xs) = set xs"
  by (induction xs) (simp_all add: set_insertSorted)




lemma sortPeriods_set: "set (sortPeriods dateParse periods) = set periods"
  by (simp add: sortPeriods_def set_arraySort)

lemma sortPeriods_nonempty: "periods \<noteq> [] \<Longrightarrow> sortPeriods dateParse periods \<noteq> []"
  using sortPeriods_set [of dateParse periods] by auto

lemma sortPeriods_singleton: "sortPeriods dateParse [p] = [p]"
  by (simp add: sortPeriods_def)


lemma sortPeriods_hd_mem:
  assumes "periods \<noteq> []"
  shows "hd (sortPeriods dateParse periods) \<in> set periods"
  using hd_in_set [OF sortPeriods_nonempty [OF assms, of dateParse]]
  by (simp add: sortPeriods_set)


subsection \<open>The loop\<close>

lemma spec_adjacentDiffs_simps:
  "spec_adjacentDiffs [] = []"
  "spec_adjacentDiffs [a] = []"
  "spec_adjacentDiffs (a # b # ts) = (a - b) div msPerDay # spec_adjacentDiffs (b # ts)"
  by (simp_all add: spec_adjacentDiffs_def)

lemma spec_includedDiffs_simps:
  "spec_includedDiffs [] = []"
  "spec_includedDiffs [a] = []"
  "spec_includedDiffs (a # b # ts) =
     (if 0 < (a - b) div msPerDay \<and> (a - b) div msPerDay < 60
      then (a - b) div msPerDay # spec_includedDiffs (b # ts)
      else spec_includedDiffs (b # ts))"
  by (simp_all add: spec_includedDiffs_def spec_adjacentDiffs_simps)

lemma drop_two:
  assumes "Suc i < length ts"
  shows "drop i ts = ts ! i # ts ! Suc i # drop (Suc (Suc i)) ts"
proof -
  have "drop i ts = ts ! i # drop (Suc i) ts"
    using assms by (simp add: Cons_nth_drop_Suc)
  also have "drop (Suc i) ts = ts ! Suc i # drop (Suc (Suc i)) ts"
    using assms by (simp add: Cons_nth_drop_Suc)
  finally show ?thesis .
qed

lemma spec_includedDiffs_drop_step:
  assumes "Suc i < length ts"
  shows "spec_includedDiffs (drop i ts) =
     (if 0 < (ts ! i - ts ! Suc i) div msPerDay \<and> (ts ! i - ts ! Suc i) div msPerDay < 60
      then (ts ! i - ts ! Suc i) div msPerDay # spec_includedDiffs (drop (Suc i) ts)
      else spec_includedDiffs (drop (Suc i) ts))"
proof -
  have "drop (Suc i) ts = ts ! Suc i # drop (Suc (Suc i)) ts"
    using assms by (simp add: Cons_nth_drop_Suc)
  then show ?thesis
    using drop_two [OF assms] by (simp add: spec_includedDiffs_simps)
qed

lemma spec_includedDiffs_drop_end:
  assumes "\<not> Suc i < length ts"
  shows "spec_includedDiffs (drop i ts) = []"
proof (cases "i < length ts")
  case True
  with assms have "length (drop i ts) = 1"
    by simp
  then obtain a where "drop i ts = [a]"
    by (cases "drop i ts") auto
  then show ?thesis
    by (simp add: spec_includedDiffs_simps)
next
  case False
  then show ?thesis
    by (simp add: spec_includedDiffs_simps)
qed

lemma cycleLoop_stop:
  "\<not> Suc i < length periods \<Longrightarrow> cycleLoop dateParse periods i (t, c) = (t, c)"
  by (subst cycleLoop.simps) simp

lemma cycleLoop_step:
  assumes "Suc i < length periods"
    and "newDate dateParse (startDate (periods ! i)) \<noteq> None"
    and "newDate dateParse (startDate (periods ! Suc i)) \<noteq> None"
  shows "cycleLoop dateParse periods i (t, c) =
     (if 0 < (startTime dateParse (periods ! i) - startTime dateParse (periods ! Suc i))
               div msPerDay \<and>
         (startTime dateParse (periods ! i) - startTime dateParse (periods ! Suc i))
               div msPerDay < 60
      then cycleLoop dateParse periods (Suc i)
             (t + (startTime dateParse (periods ! i) - startTime dateParse (periods ! Suc i))
                    div msPerDay, c + 1)
      else cycleLoop dateParse periods (Suc i) (t, c))"
  using assms(1)
  by (subst cycleLoop.simps)
    (simp add: Let_def daysBetween_def newDate_startTime [OF assms(2)]
      newDate_startTime [OF assms(3)])

text \<open>On start dates that parse, the loop sums and counts the included differences.\<close>

lemma cycleLoop_eq:
  assumes "\<forall>p \<in> set periods. newDate dateParse (startDate p) \<noteq> None"
  shows "cycleLoop dateParse periods i (t, c) =
     (t + sum_list (spec_includedDiffs (drop i (map (startTime dateParse) periods))),
      c + int (length (spec_includedDiffs (drop i (map (startTime dateParse) periods)))))"
proof (induction "length periods - i" arbitrary: i t c)
  case 0
  then have "\<not> Suc i < length periods"
    by simp
  then show ?case
    by (simp add: cycleLoop_stop spec_includedDiffs_drop_end)
next
  case (Suc n)
  show ?case
  proof (cases "Suc i < length periods")
    case False
    then show ?thesis
      by (simp add: cycleLoop_stop spec_includedDiffs_drop_end)
  next
    case True
    then have lt: "Suc i < length (map (startTime dateParse) periods)"
      by simp
    have n: "n = length periods - Suc i"
      using Suc.hyps(2) by simp
    have ts: "map (startTime dateParse) periods ! i = startTime dateParse (periods ! i)"
      "map (startTime dateParse) periods ! Suc i = startTime dateParse (periods ! Suc i)"
      using True by simp_all
    from True assms have p: "newDate dateParse (startDate (periods ! i)) \<noteq> None"
      "newDate dateParse (startDate (periods ! Suc i)) \<noteq> None"
      by simp_all
    show ?thesis
      by (simp add: cycleLoop_step [OF True p] Suc.hyps(1) [OF n]
          spec_includedDiffs_drop_step [OF lt] ts)
  qed
qed

subsection \<open>The average and the next date\<close>

lemma spec_includedDiffs_bounds:
  "diffDays \<in> set (spec_includedDiffs ts) \<Longrightarrow> 0 < diffDays \<and> diffDays < 60"
  by (simp add: spec_includedDiffs_def)

lemma sum_list_bounds:
  assumes "\<forall>x \<in> set xs. 1 \<le> x \<and> x \<le> (59::int)"
  shows "int (length xs) \<le> sum_list xs \<and> sum_list xs \<le> 59 * int (length xs)"
  using assms by (induction xs) auto

lemma spec_average_bounds:
  "1 \<le> spec_average (spec_includedDiffs ts) \<and> spec_average (spec_includedDiffs ts) \<le> 59"
proof (cases "spec_includedDiffs ts = []")
  case True
  then show ?thesis
    by (simp add: spec_average_def)
next
  case False
  let ?xs = "spec_includedDiffs ts"
  let ?n = "real (length ?xs)"
  have n: "0 < ?n"
    using False by simp
  have "\<forall>x \<in> set ?xs. 1 \<le> x \<and> x \<le> 59"
    using spec_includedDiffs_bounds [of _ ts] by force
  from sum_list_bounds [OF this]
  have "real_of_int (int (length ?xs)) \<le> real_of_int (sum_list ?xs)"
    "real_of_int (sum_list ?xs) \<le> real_of_int (59 * int (length ?xs))"
    by (simp_all only: of_int_le_iff)
  then have "1 \<le> real_of_int (sum_list ?xs) / ?n" "real_of_int (sum_list ?xs) / ?n \<le> 59"
    using n by (simp_all add: field_simps)
  then have "round (1::real) \<le> round (real_of_int (sum_list ?xs) / ?n)"
    "round (real_of_int (sum_list ?xs) / ?n) \<le> round (59::real)"
    by (simp_all only: round_mono)
  then show ?thesis
    using False by (simp add: spec_average_def)
qed



lemma setDatePlus_in_range:
  assumes "\<forall>x. \<bar>offsetAtUTC zone x\<bar> \<le> msPerDay \<and> \<bar>offsetAtLocal zone x\<bar> \<le> msPerDay"
    and "\<bar>t\<bar> \<le> maxTime - 61 * msPerDay" and "1 \<le> n" and "n \<le> 59"
  shows "setDatePlus zone (Some t) n \<noteq> None"
proof -
  define l where "l = t + offsetAtUTC zone t + n * msPerDay"
  have a: "\<bar>offsetAtUTC zone t\<bar> \<le> msPerDay" "\<bar>offsetAtLocal zone l\<bar> \<le> msPerDay"
    using assms(1) by simp_all
  have "0 \<le> n * msPerDay" "n * msPerDay \<le> 59 * msPerDay"
    using assms(3,4) msPerDay_pos by simp_all
  with a assms(2) have "\<bar>l - offsetAtLocal zone l\<bar> \<le> maxTime"
    unfolding l_def by linarith
  then show ?thesis
    by (simp add: setDatePlus_def Let_def timeClip_def l_def)
qed

text \<open>What the handler returns on a non-empty list whose start dates parse.\<close>

lemma getPeriodData_parsed:
  assumes ne: "periods0 \<noteq> []"
    and parsed: "\<forall>p \<in> set periods0. newDate dateParse (startDate p) \<noteq> None"
  shows "getPeriodData dateParse zone now periods0 =
    (case setDatePlus zone (Some (startTime dateParse (hd (sortPeriods dateParse periods0))))
            (spec_average (spec_includedDiffs
               (map (startTime dateParse) (sortPeriods dateParse periods0)))) of
       None \<Rightarrow> Inl RangeError
     | Some next \<Rightarrow>
         Inr (sortPeriods dateParse periods0,
              Some \<lparr>nextPeriodDate = toISODate next,
                    averageCycleLength =
                      spec_average (spec_includedDiffs
                        (map (startTime dateParse) (sortPeriods dateParse periods0))),
                    daysUntilNext = (next - now) div msPerDay\<rparr>))"
proof -
  let ?S = "sortPeriods dateParse periods0"
  have S: "\<forall>p \<in> set ?S. newDate dateParse (startDate p) \<noteq> None"
    using parsed by (simp add: sortPeriods_set)
  have hd0: "?S ! 0 = hd ?S"
    using sortPeriods_nonempty [OF ne, of dateParse] by (simp add: hd_conv_nth)
  have "hd ?S \<in> set periods0"
    by (rule sortPeriods_hd_mem [OF ne])
  with parsed have last: "newDate dateParse (startDate (hd ?S)) =
      Some (startTime dateParse (hd ?S))"
    by (simp add: newDate_startTime)
  let ?L = "spec_includedDiffs (map (startTime dateParse) ?S)"
  have loop: "cycleLoop dateParse ?S 0 (0, 0) = (sum_list ?L, int (length ?L))"
    by (simp add: cycleLoop_eq [OF S])
  have avg: "(if int (length ?L) > 0
              then round (real_of_int (sum_list ?L) / real_of_int (int (length ?L)))
              else 28) = spec_average ?L"
    by (simp add: spec_average_def)
  have len: "(length periods0 = 0) = False"
    using ne by simp
  show ?thesis
    by (simp only: getPeriodData_def Let_def loop prod.case avg hd0 last len if_False)
qed


subsection \<open>The examples\<close>

lemma startDate_periodOn: "startDate (periodOn s) = s"
  by (simp add: periodOn_def)


lemma comparePeriods_examples:
  "comparePeriods parseIsoDate (periodOn (str ''2024-01-29'')) (periodOn (str ''2024-02-26'')) =
     Some (getTime 19779 - getTime 19751)"
  "comparePeriods parseIsoDate (periodOn (str ''2024-01-01'')) (periodOn (str ''2024-02-26'')) =
     Some (getTime 19779 - getTime 19723)"
  "comparePeriods parseIsoDate (periodOn (str ''2024-01-01'')) (periodOn (str ''2024-01-29'')) =
     Some (getTime 19751 - getTime 19723)"
  "comparePeriods parseIsoDate (periodOn (str ''2024-01-29'')) (periodOn (str ''2024-04-28'')) =
     Some (getTime 19841 - getTime 19751)"
  "comparePeriods parseIsoDate (periodOn (str ''2024-01-01'')) (periodOn (str ''2024-04-28'')) =
     Some (getTime 19841 - getTime 19723)"
  by (simp_all add: comparePeriods_def startDate_periodOn newDate_examples)

lemma sortPeriods_examples:
  "sortPeriods parseIsoDate
     [periodOn (str ''2024-01-01''), periodOn (str ''2024-01-29''),
      periodOn (str ''2024-02-26'')] =
   [periodOn (str ''2024-02-26''), periodOn (str ''2024-01-29''),
    periodOn (str ''2024-01-01'')]"
  "sortPeriods parseIsoDate
     [periodOn (str ''2024-01-01''), periodOn (str ''2024-01-29''),
      periodOn (str ''2024-04-28'')] =
   [periodOn (str ''2024-04-28''), periodOn (str ''2024-01-29''),
    periodOn (str ''2024-01-01'')]"
  "sortPeriods parseIsoDate [periodOn (str ''2024-01-01''), periodOn (str ''2024-01-29'')] =
   [periodOn (str ''2024-01-29''), periodOn (str ''2024-01-01'')]"
  by (simp_all add: sortPeriods_def comparePeriods_examples getTime_def msPerDay_def)











lemma getPeriodData_example_unparsable:
  "getPeriodData parseIsoDate (fixedZone 0) 0 [periodOn (str ''not a date'')] = Inl RangeError"
  by (simp add: getPeriodData_def Let_def sortPeriods_singleton startDate_periodOn
      newDate_examples setDatePlus_def split: prod.splits)




text \<open>
  Claim C8, as amended. The handler answers with the prediction \<^verbatim>\<open>null\<close> exactly
  when the list of periods is empty, and then with no periods. On a non-empty list it
  either fails with a \<^verbatim>\<open>RangeError\<close> or returns a prediction; it returns a
  prediction whenever every start date parses to a time at least 61 days inside the
  range of dates and the offsets of the time zone are at most a day.
\<close>

theorem getPeriodData_null_iff_empty:
  "(\<exists>ps. getPeriodData dateParse zone now periods0 = Inr (ps, None)) = (periods0 = [])
   \<and> getPeriodData dateParse zone now [] = Inr ([], None)
   \<and> (periods0 \<noteq> [] \<longrightarrow>
        getPeriodData dateParse zone now periods0 = Inl RangeError \<or>
        (\<exists>ps p. getPeriodData dateParse zone now periods0 = Inr (ps, Some p)))
   \<and> (periods0 \<noteq> [] \<and>
       (\<forall>p \<in> set periods0. \<exists>t. newDate dateParse (startDate p) = Some t \<and>
          \<bar>t\<bar> \<le> maxTime - 61 * msPerDay) \<and>
       (\<forall>x. \<bar>offsetAtUTC zone x\<bar> \<le> msPerDay \<and> \<bar>offsetAtLocal zone x\<bar> \<le> msPerDay) \<longrightarrow>
        (\<exists>p. getPeriodData dateParse zone now periods0 =
           Inr (sortPeriods dateParse periods0, Some p)))"
proof (intro conjI impI)
  show e: "getPeriodData dateParse zone now [] = Inr ([], None)"
    by (simp add: getPeriodData_def)
  have n: "getPeriodData dateParse zone now periods0 = Inl RangeError \<or>
        (\<exists>ps p. getPeriodData dateParse zone now periods0 = Inr (ps, Some p))"
    if "periods0 \<noteq> []"
    using that by (simp add: getPeriodData_def Let_def split: prod.splits option.splits)
  then show "getPeriodData dateParse zone now periods0 = Inl RangeError \<or>
        (\<exists>ps p. getPeriodData dateParse zone now periods0 = Inr (ps, Some p))"
    if "periods0 \<noteq> []"
    using that .
  show "(\<exists>ps. getPeriodData dateParse zone now periods0 = Inr (ps, None)) = (periods0 = [])"
    using e n by (cases "periods0 = []") auto
next
  assume a: "periods0 \<noteq> [] \<and>
       (\<forall>p \<in> set periods0. \<exists>t. newDate dateParse (startDate p) = Some t \<and>
          \<bar>t\<bar> \<le> maxTime - 61 * msPerDay) \<and>
       (\<forall>x. \<bar>offsetAtUTC zone x\<bar> \<le> msPerDay \<and> \<bar>offsetAtLocal zone x\<bar> \<le> msPerDay)"
  let ?S = "sortPeriods dateParse periods0"
  let ?A = "spec_average (spec_includedDiffs (map (startTime dateParse) ?S))"
  from a have ne: "periods0 \<noteq> []"
    by simp
  from a have parsed: "\<forall>p \<in> set periods0. newDate dateParse (startDate p) \<noteq> None"
    by auto
  from a have zone: "\<forall>x. \<bar>offsetAtUTC zone x\<bar> \<le> msPerDay \<and> \<bar>offsetAtLocal zone x\<bar> \<le> msPerDay"
    by simp
  have "hd ?S \<in> set periods0"
    by (rule sortPeriods_hd_mem [OF ne])
  with a obtain t where t: "newDate dateParse (startDate (hd ?S)) = Some t"
    "\<bar>t\<bar> \<le> maxTime - 61 * msPerDay"
    by blast
  then have "\<bar>startTime dateParse (hd ?S)\<bar> \<le> maxTime - 61 * msPerDay"
    by (simp add: startTime_Some)
  from setDatePlus_in_range [OF zone this, of ?A] spec_average_bounds
  obtain nxt where "setDatePlus zone (Some (startTime dateParse (hd ?S))) ?A = Some nxt"
    by auto
  then show "\<exists>p. getPeriodData dateParse zone now periods0 = Inr (?S, Some p)"
    by (simp add: getPeriodData_parsed [OF ne parsed])
qed

theorem getPeriodData_null_iff_empty_witness:
  "(\<exists>p. getPeriodData parseIsoDate (fixedZone 0) 0
          [periodOn (str ''2024-01-01''), periodOn (str ''2024-01-29'')] =
          Inr ([periodOn (str ''2024-01-29''), periodOn (str ''2024-01-01'')], Some p))
   \<and> (getPeriodData parseIsoDate (fixedZone 0) 0 [periodOn (str ''not a date'')] =
        Inl RangeError \<or>
      (\<exists>ps p. getPeriodData parseIsoDate (fixedZone 0) 0 [periodOn (str ''not a date'')] =
        Inr (ps, Some p)))
   \<and> getPeriodData parseIsoDate (fixedZone 0) 0 [] = Inr ([], None)"
proof -
  let ?ps = "[periodOn (str ''2024-01-01''), periodOn (str ''2024-01-29'')]"
  have ne: "?ps \<noteq> []" "[periodOn (str ''not a date'')] \<noteq> []"
    by simp_all
  have parsed: "\<forall>p \<in> set ?ps. \<exists>t. newDate parseIsoDate (startDate p) = Some t \<and>
      \<bar>t\<bar> \<le> maxTime - 61 * msPerDay"
    by (simp add: startDate_periodOn newDate_examples getTime_def msPerDay_def maxTime_def)
  have zone: "\<forall>x. \<bar>offsetAtUTC (fixedZone 0) x\<bar> \<le> msPerDay \<and>
      \<bar>offsetAtLocal (fixedZone 0) x\<bar> \<le> msPerDay"
    by (simp add: fixedZone_def msPerDay_def)
  from getPeriodData_null_iff_empty [of parseIsoDate "fixedZone 0" 0 ?ps,
      unfolded sortPeriods_examples] ne parsed zone
  have 1: "\<exists>p. getPeriodData parseIsoDate (fixedZone 0) 0 ?ps =
          Inr ([periodOn (str ''2024-01-29''), periodOn (str ''2024-01-01'')], Some p)"
    by blast
  from getPeriodData_null_iff_empty
    [of parseIsoDate "fixedZone 0" 0 "[periodOn (str ''not a date'')]"] ne
  have 2: "getPeriodData parseIsoDate (fixedZone 0) 0 [periodOn (str ''not a date'')] =
        Inl RangeError \<or>
      (\<exists>ps p. getPeriodData parseIsoDate (fixedZone 0) 0 [periodOn (str ''not a date'')] =
        Inr (ps, Some p))"
    by blast
  from getPeriodData_null_iff_empty [of parseIsoDate "fixedZone 0" 0 "[]"]
  have 3: "getPeriodData parseIsoDate (fixedZone 0) 0 [] = Inr ([], None)"
    by blast
  from 1 2 3 show ?thesis
    by blast
qed

theorem getPeriodData_unparsable_counterexample:
  "[periodOn (str ''not a date'')] \<noteq> []
   \<and> getPeriodData parseIsoDate (fixedZone 0) 0 [periodOn (str ''not a date'')] =
       Inl RangeError"
  by (simp add: getPeriodData_example_unparsable)


text \<open>
  A start date that parses to the last time a date can hold (\<^verbatim>\<open>+275760-09-13\<close>)
  fails in the same way: the predicted time is outside the range.
\<close>

lemma getPeriodData_end_of_range:
  assumes "dateParse s = Some maxTime"
  shows "getPeriodData dateParse (fixedZone 0) now [periodOn s] = Inl RangeError"
proof -
  have n: "newDate dateParse (startDate (periodOn s)) = Some maxTime"
    using assms by (simp add: newDate_def startDate_periodOn timeClip_def maxTime_def)
  have "setDatePlus (fixedZone 0) (Some maxTime) 28 = None"
    by (simp add: setDatePlus_def fixedZone_def timeClip_def msPerDay_def maxTime_def)
  then show ?thesis
    using n
    by (simp add: getPeriodData_def Let_def sortPeriods_singleton cycleLoop_stop)
qed

section \<open>Chat bot: proofs\<close>

lemma stringIncludes_iff: "stringIncludes s k = (\<exists>ps ss. s = ps @ k @ ss)"
  by (simp add: stringIncludes_def sublist_def)

lemma includesSome_iff:
  "includesSome s ws = (\<exists>w \<in> set ws. \<exists>ps ss. s = ps @ w @ ss)"
  by (simp add: includesSome_def list_ex_iff stringIncludes_iff)

lemma str_eq_Nil: "(str s = []) = (s = [])"
  by (simp add: str_def)

lemma pick_in_range:
  assumes "0 \<le> u" "u < 1" "xs \<noteq> []"
  shows "\<exists>x. pick u xs = Some x \<and> x \<in> set xs"
proof -
  define n where "n = length xs"
  define i where "i = \<lfloor>u * real n\<rfloor>"
  have npos: "0 < real n"
    using assms(3) by (simp add: n_def)
  have "0 \<le> u * real n"
    using assms(1) npos by simp
  then have i0: "0 \<le> i"
    by (simp add: i_def)
  have "u * real n < real n"
    using assms(2) npos by simp
  then have "i < int n"
    unfolding i_def by (simp add: floor_less_iff)
  with i0 have "nat i < length xs"
    by (simp add: n_def)
  then have "xs ! nat i \<in> set xs"
    by simp
  moreover have "pick u xs = Some (xs ! nat i)"
    using i0 \<open>i < int n\<close> by (simp add: pick_def i_def n_def)
  ultimately show ?thesis
    by blast
qed

lemma responses_templates:
  "list_all (\<lambda>(key, templates). templates \<noteq> [] \<and> list_all (\<lambda>t. t \<noteq> []) templates) responses"
  by (simp add: responses_def str_eq_Nil)

lemma responses_nonempty:
  assumes "map_of responses key = Some templates"
  shows "templates \<noteq> []" and "[] \<notin> set templates"
proof -
  from assms have "(key, templates) \<in> set responses"
    by (rule map_of_SomeD)
  with responses_templates
  have "templates \<noteq> [] \<and> list_all (\<lambda>t. t \<noteq> []) templates"
    by (auto simp add: list_all_iff)
  then show "templates \<noteq> []" and "[] \<notin> set templates"
    by (auto simp add: list_all_iff)
qed

lemma pickResponse_Some:
  assumes "map_of responses key = Some templates" "0 \<le> u" "u < 1"
  shows "\<exists>r. pickResponse key u = Inr (Some r) \<and> r \<in> set templates \<and> r \<noteq> []"
proof -
  from pick_in_range [OF assms(2,3) responses_nonempty(1) [OF assms(1)]]
  obtain r where r: "pick u templates = Some r" "r \<in> set templates"
    by blast
  with responses_nonempty(2) [OF assms(1)] have "r \<noteq> []"
    by auto
  with r assms(1) show ?thesis
    by (simp add: pickResponse_def)
qed

lemma responses_keys:
  "map_of responses ''crisis'' \<noteq> None"
  "map_of responses ''default'' \<noteq> None"
  "map_of responses ''funfact'' \<noteq> None"
  "map_of responses ''sad'' \<noteq> None"
  "map_of responses ''happy'' \<noteq> None"
  "map_of responses ''stressed'' \<noteq> None"
  "map_of responses ''anxious'' \<noteq> None"
  by (simp_all add: responses_def)

lemma responses_question_keys:
  assumes "q \<in> {Breakfast, Lunch, Dinner}"
  shows "map_of responses (questionKey q) \<noteq> None"
    and "map_of responses (''no'' @ questionKey q) \<noteq> None"
  using assms by (auto simp add: responses_def)

lemma responses_mood:
  "map_of responses (questionKey Mood) = None"
  "map_of responses (''no'' @ questionKey Mood) = None"
  by (simp_all add: responses_def)

lemma keywordResponse_spec: "keywordResponse lowercaseMessage u = spec_keywordResponse lowercaseMessage u"
  by (simp add: keywordResponse_def spec_keywordResponse_def spec_topicTable_def includesSome_def)


lemma keywordResponse_key:
  "\<exists>key \<in> set topicKeys. keywordResponse lowercaseMessage u = pickResponse key u"
  by (simp add: keywordResponse_def topicKeys_def)

lemma topicKeys_responses: "key \<in> set topicKeys \<Longrightarrow> map_of responses key \<noteq> None"
  using responses_keys by (auto simp add: topicKeys_def)

lemma keywordResponse_Some:
  assumes "0 \<le> u" "u < 1"
  shows "\<exists>key templates r. map_of responses key = Some templates \<and>
           keywordResponse lowercaseMessage u = Inr (Some r) \<and> r \<in> set templates \<and> r \<noteq> []"
proof -
  from keywordResponse_key obtain key where
    k: "key \<in> set topicKeys" "keywordResponse lowercaseMessage u = pickResponse key u"
    by blast
  from topicKeys_responses [OF k(1)] obtain templates where
    t: "map_of responses key = Some templates"
    by auto
  from pickResponse_Some [OF t assms] k(2) t show ?thesis
    by auto
qed

lemmas includes_eval = stringIncludes_def includesSome_def sublist_code prefix_code str_def

lemma getResponse_crisis:
  "includesSome (toLowerCase userMessage) crisisKeywords \<Longrightarrow>
   getResponse toLowerCase u lastQuestion userMessage =
     (case pickResponse ''crisis'' u of
        Inl e \<Rightarrow> Inl e
      | Inr r \<Rightarrow> Inr \<lparr>reply = r, nextQuestion = lastQuestion, emergencyTriggered = True\<rparr>)"
  by (simp add: getResponse_def Let_def)

lemma getResponse_yes:
  "\<not> includesSome (toLowerCase userMessage) crisisKeywords \<Longrightarrow>
   lastQuestion \<noteq> NoQuestion \<Longrightarrow>
   includesSome (toLowerCase userMessage) (map str [''yes'', ''yeah'', ''yep'', ''sure'']) \<Longrightarrow>
   getResponse toLowerCase u lastQuestion userMessage =
     (case pickResponse (questionKey lastQuestion) u of
        Inl e \<Rightarrow> Inl e
      | Inr r \<Rightarrow> Inr \<lparr>reply = r, nextQuestion = NoQuestion, emergencyTriggered = False\<rparr>)"
  by (simp add: getResponse_def Let_def)

lemma getResponse_no:
  "\<not> includesSome (toLowerCase userMessage) crisisKeywords \<Longrightarrow>
   lastQuestion \<noteq> NoQuestion \<Longrightarrow>
   \<not> includesSome (toLowerCase userMessage) (map str [''yes'', ''yeah'', ''yep'', ''sure'']) \<Longrightarrow>
   includesSome (toLowerCase userMessage) (map str [''no'', ''nah'', ''nope'']) \<Longrightarrow>
   getResponse toLowerCase u lastQuestion userMessage =
     (case pickResponse (''no'' @ questionKey lastQuestion) u of
        Inl e \<Rightarrow> Inl e
      | Inr r \<Rightarrow> Inr \<lparr>reply = r, nextQuestion = NoQuestion, emergencyTriggered = False\<rparr>)"
  by (simp add: getResponse_def Let_def)

lemma getResponse_general:
  "\<not> includesSome (toLowerCase userMessage) crisisKeywords \<Longrightarrow>
   lastQuestion = NoQuestion \<or>
   (\<not> includesSome (toLowerCase userMessage) (map str [''yes'', ''yeah'', ''yep'', ''sure'']) \<and>
    \<not> includesSome (toLowerCase userMessage) (map str [''no'', ''nah'', ''nope''])) \<Longrightarrow>
   getResponse toLowerCase u lastQuestion userMessage =
     (case keywordResponse (toLowerCase userMessage) u of
        Inl e \<Rightarrow> Inl e
      | Inr r \<Rightarrow> Inr \<lparr>reply = r, nextQuestion = lastQuestion, emergencyTriggered = False\<rparr>)"
  unfolding getResponse_def Let_def by auto

lemma getResponse_Some:
  assumes q: "lastQuestion \<in> {Breakfast, Lunch, Dinner, NoQuestion}"
    and u: "0 \<le> u" "u < 1"
  shows "\<exists>key templates r out.
           map_of responses key = Some templates \<and> r \<in> set templates \<and> r \<noteq> [] \<and>
           getResponse toLowerCase u lastQuestion userMessage = Inr out \<and> reply out = Some r"
proof -
  let ?l = "toLowerCase userMessage"
  consider (crisis) "includesSome ?l crisisKeywords"
    | (yes) "\<not> includesSome ?l crisisKeywords" "lastQuestion \<noteq> NoQuestion"
        "includesSome ?l (map str [''yes'', ''yeah'', ''yep'', ''sure''])"
    | (no) "\<not> includesSome ?l crisisKeywords" "lastQuestion \<noteq> NoQuestion"
        "\<not> includesSome ?l (map str [''yes'', ''yeah'', ''yep'', ''sure''])"
        "includesSome ?l (map str [''no'', ''nah'', ''nope''])"
    | (general) "\<not> includesSome ?l crisisKeywords"
        "lastQuestion = NoQuestion \<or>
         (\<not> includesSome ?l (map str [''yes'', ''yeah'', ''yep'', ''sure'']) \<and>
          \<not> includesSome ?l (map str [''no'', ''nah'', ''nope'']))"
    by blast
  then show ?thesis
  proof cases
    case crisis
    from responses_keys(1) obtain templates where t: "map_of responses ''crisis'' = Some templates"
      by auto
    from pickResponse_Some [OF t u] obtain r where
      "pickResponse ''crisis'' u = Inr (Some r)" "r \<in> set templates" "r \<noteq> []"
      by blast
    with t show ?thesis
      by (auto simp add: getResponse_crisis [where toLowerCase = toLowerCase and userMessage = userMessage, OF crisis])
  next
    case yes
    with q have "lastQuestion \<in> {Breakfast, Lunch, Dinner}"
      by auto
    from responses_question_keys(1) [OF this] obtain templates where
      t: "map_of responses (questionKey lastQuestion) = Some templates"
      by auto
    from pickResponse_Some [OF t u] obtain r where
      "pickResponse (questionKey lastQuestion) u = Inr (Some r)" "r \<in> set templates" "r \<noteq> []"
      by blast
    with t show ?thesis
      by (auto simp add: getResponse_yes [where toLowerCase = toLowerCase and userMessage = userMessage, OF yes])
  next
    case no
    with q have "lastQuestion \<in> {Breakfast, Lunch, Dinner}"
      by auto
    from responses_question_keys(2) [OF this] obtain templates where
      t: "map_of responses (''no'' @ questionKey lastQuestion) = Some templates"
      by auto
    from pickResponse_Some [OF t u] obtain r where
      "pickResponse (''no'' @ questionKey lastQuestion) u = Inr (Some r)"
      "r \<in> set templates" "r \<noteq> []"
      by blast
    with t show ?thesis
      by (auto simp add: getResponse_no [where toLowerCase = toLowerCase and userMessage = userMessage, OF no])
  next
    case general
    from keywordResponse_Some [OF u, of ?l] obtain key templates r where
      "map_of responses key = Some templates" "keywordResponse ?l u = Inr (Some r)"
      "r \<in> set templates" "r \<noteq> []"
      by blast
    then show ?thesis
      by (auto simp add: getResponse_general [where toLowerCase = toLowerCase and userMessage = userMessage, OF general])
  qed
qed

lemma getResponse_nextQuestion:
  "getResponse toLowerCase u lastQuestion userMessage = Inr out \<Longrightarrow>
   nextQuestion out = lastQuestion \<or> nextQuestion out = NoQuestion"
  by (auto simp add: getResponse_def Let_def split: if_splits sum.splits)

lemma greetingQuestion_cases: "greetingQuestion hour \<in> {Breakfast, Lunch, Dinner}"
  by (simp add: greetingQuestion_def)

text \<open>The component never holds \<^verbatim>\<open>'mood'\<close> in \<^verbatim>\<open>lastQuestion\<close>.\<close>

lemma reachableQuestion_not_Mood:
  "reachableQuestion q \<Longrightarrow> q \<in> {Breakfast, Lunch, Dinner, NoQuestion}"
proof (induction rule: reachableQuestion.induct)
  case initial
  show ?case by simp
next
  case (greeting hour)
  show ?case using greetingQuestion_cases [of hour] by auto
next
  case (answered q toLowerCase u userMessage out)
  from getResponse_nextQuestion [OF answered.hyps(2)] answered.IH show ?case
    by auto
qed

text \<open>
  \<^verbatim>\<open>'mood'\<close> is a value of the type that nothing stores; the table has no templates
  for it, and answering it with a yes or no word would throw.
\<close>

lemma getResponse_Mood_throws:
  "getResponse toLowerCaseAscii u Mood (str ''yes'') = Inl TypeError"
  "getResponse toLowerCaseAscii u Mood (str ''nope'') = Inl TypeError"
  by (simp_all add: getResponse_def includes_eval toLowerCaseAscii_def crisisKeywords_def
      pickResponse_def responses_def)

lemma crisis_templates_apart:
  "map_of responses ''crisis'' = Some crisis \<Longrightarrow>
   map_of responses ''nobreakfast'' = Some missed \<Longrightarrow> set crisis \<inter> set missed = {}"
  by (auto simp add: responses_def str_def)

lemma crisis_example_lowered:
  "includesSome (toLowerCaseAscii (str ''no, I want to die'')) crisisKeywords"
  by (simp add: includes_eval toLowerCaseAscii_def crisisKeywords_def)

text \<open>
  Claim C1. When the lower-cased message contains a crisis keyword (one of the listed
  keywords occurs in it as a substring), then for every value of \<^verbatim>\<open>lastQuestion\<close>
  the call reports the emergency and leaves \<^verbatim>\<open>lastQuestion\<close> as it was, so no
  later rule has run; with \<open>u\<close> a value of \<^verbatim>\<open>Math.random()\<close> the reply is one of
  the crisis templates. The keyword list holds the seven keywords the claim names. With
  the pending question \<^verbatim>\<open>breakfast\<close> and the message "no, I want to die" the reply
  is a crisis template and none of the missed-breakfast templates, and the emergency is
  reported.
\<close>

theorem crisis_preempts:
  "(includesSome (toLowerCase userMessage) crisisKeywords \<longrightarrow>
      (\<exists>r. getResponse toLowerCase u lastQuestion userMessage =
             Inr \<lparr>reply = r, nextQuestion = lastQuestion, emergencyTriggered = True\<rparr>))
   \<and> (includesSome (toLowerCase userMessage) crisisKeywords \<and> 0 \<le> u \<and> u < 1 \<longrightarrow>
      (\<exists>templates r. map_of responses ''crisis'' = Some templates \<and> r \<in> set templates \<and>
         getResponse toLowerCase u lastQuestion userMessage =
           Inr \<lparr>reply = Some r, nextQuestion = lastQuestion, emergencyTriggered = True\<rparr>))
   \<and> includesSome lowercaseMessage crisisKeywords =
        (\<exists>keyword \<in> set crisisKeywords. \<exists>ps ss. lowercaseMessage = ps @ keyword @ ss)
   \<and> set (map str [''suicide'', ''kill myself'', ''want to die'', ''die'', ''death'', ''dead'',
          ''end it all'']) \<subseteq> set crisisKeywords
   \<and> (0 \<le> u \<and> u < 1 \<longrightarrow>
      (\<exists>crisis missed r.
         map_of responses ''crisis'' = Some crisis \<and>
         map_of responses ''nobreakfast'' = Some missed \<and>
         r \<in> set crisis \<and> r \<notin> set missed \<and>
         getResponse toLowerCaseAscii u Breakfast (str ''no, I want to die'') =
           Inr \<lparr>reply = Some r, nextQuestion = Breakfast, emergencyTriggered = True\<rparr>))"
proof -
  obtain crisis where c: "map_of responses ''crisis'' = Some crisis"
    using responses_keys(1) by auto
  have general: "\<exists>r. r \<in> set crisis \<and>
         getResponse lc v q m =
           Inr \<lparr>reply = Some r, nextQuestion = q, emergencyTriggered = True\<rparr>"
    if "includesSome (lc m) crisisKeywords" "0 \<le> v" "v < 1" for lc v q m
  proof -
    from pickResponse_Some [OF c that(2,3)] obtain r where
      "pickResponse ''crisis'' v = Inr (Some r)" "r \<in> set crisis"
      by blast
    then show ?thesis
      by (auto simp add: getResponse_crisis [where toLowerCase = lc and userMessage = m, OF that(1)])
  qed
  have emergency: "\<exists>r. getResponse toLowerCase u lastQuestion userMessage =
             Inr \<lparr>reply = r, nextQuestion = lastQuestion, emergencyTriggered = True\<rparr>"
    if "includesSome (toLowerCase userMessage) crisisKeywords"
    using c by (simp add: pickResponse_def
        getResponse_crisis [where toLowerCase = toLowerCase and userMessage = userMessage, OF that])
  have listed: "set (map str [''suicide'', ''kill myself'', ''want to die'', ''die'', ''death'',
          ''dead'', ''end it all'']) \<subseteq> set crisisKeywords"
    by (simp add: crisisKeywords_def)
  have example: "\<exists>crisis missed r.
         map_of responses ''crisis'' = Some crisis \<and>
         map_of responses ''nobreakfast'' = Some missed \<and>
         r \<in> set crisis \<and> r \<notin> set missed \<and>
         getResponse toLowerCaseAscii u Breakfast (str ''no, I want to die'') =
           Inr \<lparr>reply = Some r, nextQuestion = Breakfast, emergencyTriggered = True\<rparr>"
    if "0 \<le> u" "u < 1"
  proof -
    obtain missed where m: "map_of responses ''nobreakfast'' = Some missed"
      using responses_question_keys(2) [of Breakfast] by auto
    from general [of toLowerCaseAscii "str ''no, I want to die''" u Breakfast,
        OF crisis_example_lowered that] obtain r where
      r: "r \<in> set crisis"
      "getResponse toLowerCaseAscii u Breakfast (str ''no, I want to die'') =
         Inr \<lparr>reply = Some r, nextQuestion = Breakfast, emergencyTriggered = True\<rparr>"
      by blast
    from crisis_templates_apart [OF c m] r(1) have "r \<notin> set missed"
      by auto
    with c m r show ?thesis
      by blast
  qed
  from emergency general c listed example show ?thesis
    by (simp only: includesSome_iff) blast
qed

theorem crisis_preempts_witness:
  "(\<exists>templates r. map_of responses ''crisis'' = Some templates \<and> r \<in> set templates \<and>
      getResponse toLowerCaseAscii (1 / 2) Breakfast (str ''no, I want to die'') =
        Inr \<lparr>reply = Some r, nextQuestion = Breakfast, emergencyTriggered = True\<rparr>)
   \<and> (\<exists>keyword \<in> set crisisKeywords. \<exists>ps ss.
        toLowerCaseAscii (str ''no, I want to die'') = ps @ keyword @ ss)"
proof -
  have h: "includesSome (toLowerCaseAscii (str ''no, I want to die'')) crisisKeywords"
    by (rule crisis_example_lowered)
  have u: "(0::real) \<le> 1 / 2 \<and> (1 / 2 :: real) < 1"
    by simp
  from crisis_preempts [of toLowerCaseAscii "str ''no, I want to die''" "1 / 2" Breakfast
      "toLowerCaseAscii (str ''no, I want to die'')"] h u
  show ?thesis
    by blast
qed

lemma keywordResponse_default:
  "\<not> list_ex (\<lambda>(keywords, key). includesSome lowercaseMessage keywords) spec_topicTable \<Longrightarrow>
   keywordResponse lowercaseMessage u = pickResponse ''default'' u"
  by (simp add: keywordResponse_def spec_topicTable_def includesSome_def)

lemma empty_unmatched:
  "\<not> includesSome [] crisisKeywords"
  "\<not> list_ex (\<lambda>(keywords, key). includesSome [] keywords) spec_topicTable"
  by (simp_all add: includes_eval crisisKeywords_def spec_topicTable_def)

lemma nihao_unmatched:
  "\<not> includesSome [0x4F60, 0x597D] crisisKeywords"
  "\<not> list_ex (\<lambda>(keywords, key). includesSome [0x4F60, 0x597D] keywords) spec_topicTable"
  by (simp_all add: includes_eval crisisKeywords_def spec_topicTable_def)

lemma toLowerCaseAscii_simps:
  "toLowerCaseAscii [] = []"
  "toLowerCaseAscii [0x4F60, 0x597D] = [0x4F60, 0x597D]"
  by (simp_all add: toLowerCaseAscii_def)

lemma getResponse_unmatched:
  assumes "\<not> includesSome (toLowerCase userMessage) crisisKeywords"
    and "lastQuestion = NoQuestion \<or>
         (\<not> includesSome (toLowerCase userMessage) (map str [''yes'', ''yeah'', ''yep'', ''sure'']) \<and>
          \<not> includesSome (toLowerCase userMessage) (map str [''no'', ''nah'', ''nope'']))"
    and "\<not> list_ex (\<lambda>(keywords, key). includesSome (toLowerCase userMessage) keywords)
             spec_topicTable"
    and "0 \<le> u" "u < 1"
  shows "\<exists>templates r. map_of responses ''default'' = Some templates \<and> r \<in> set templates \<and>
           getResponse toLowerCase u lastQuestion userMessage =
             Inr \<lparr>reply = Some r, nextQuestion = lastQuestion, emergencyTriggered = False\<rparr>"
proof -
  obtain templates where t: "map_of responses ''default'' = Some templates"
    using responses_keys(2) by auto
  from pickResponse_Some [OF t assms(4,5)] obtain r where
    "pickResponse ''default'' u = Inr (Some r)" "r \<in> set templates"
    by blast
  with t show ?thesis
    by (auto simp add: keywordResponse_default [OF assms(3)]
        getResponse_general [where toLowerCase = toLowerCase and userMessage = userMessage,
          OF assms(1,2)])
qed

text \<open>
  Claim C4. For every message, every value of \<^verbatim>\<open>lastQuestion\<close> among
  \<^verbatim>\<open>breakfast\<close>, \<^verbatim>\<open>lunch\<close>, \<^verbatim>\<open>dinner\<close> and \<^verbatim>\<open>none\<close> (the values of the
  specification's context, and the only ones the component stores, see
  \<open>reachableQuestion_not_Mood\<close>) and every \<open>u\<close> that \<^verbatim>\<open>Math.random()\<close> can
  return, \<^verbatim>\<open>getResponse\<close> throws nothing and returns a non-empty string. A message
  that no rule matches gets one of the default templates; so do the empty string and a
  message of two Chinese characters.
\<close>

theorem getResponse_total:
  "(lastQuestion \<in> {Breakfast, Lunch, Dinner, NoQuestion} \<and> 0 \<le> u \<and> u < 1 \<longrightarrow>
      (\<exists>out r. getResponse toLowerCase u lastQuestion userMessage = Inr out \<and>
         reply out = Some r \<and> r \<noteq> []))
   \<and> (\<not> includesSome (toLowerCase userMessage) crisisKeywords \<and>
       (lastQuestion = NoQuestion \<or>
        (\<not> includesSome (toLowerCase userMessage) (map str [''yes'', ''yeah'', ''yep'', ''sure'']) \<and>
         \<not> includesSome (toLowerCase userMessage) (map str [''no'', ''nah'', ''nope'']))) \<and>
       \<not> list_ex (\<lambda>(keywords, key). includesSome (toLowerCase userMessage) keywords)
             spec_topicTable \<and>
       0 \<le> u \<and> u < 1 \<longrightarrow>
      (\<exists>templates r. map_of responses ''default'' = Some templates \<and> r \<in> set templates \<and>
         r \<noteq> [] \<and>
         getResponse toLowerCase u lastQuestion userMessage =
           Inr \<lparr>reply = Some r, nextQuestion = lastQuestion, emergencyTriggered = False\<rparr>))
   \<and> (0 \<le> u \<and> u < 1 \<longrightarrow>
      (\<exists>templates r. map_of responses ''default'' = Some templates \<and> r \<in> set templates \<and>
         r \<noteq> [] \<and>
         getResponse toLowerCaseAscii u NoQuestion [] =
           Inr \<lparr>reply = Some r, nextQuestion = NoQuestion, emergencyTriggered = False\<rparr>))
   \<and> (0 \<le> u \<and> u < 1 \<longrightarrow>
      (\<exists>templates r. map_of responses ''default'' = Some templates \<and> r \<in> set templates \<and>
         r \<noteq> [] \<and>
         getResponse toLowerCaseAscii u NoQuestion [0x4F60, 0x597D] =
           Inr \<lparr>reply = Some r, nextQuestion = NoQuestion, emergencyTriggered = False\<rparr>))"
proof (intro conjI impI)
  assume "lastQuestion \<in> {Breakfast, Lunch, Dinner, NoQuestion} \<and> 0 \<le> u \<and> u < 1"
  then have "lastQuestion \<in> {Breakfast, Lunch, Dinner, NoQuestion}" "0 \<le> u" "u < 1"
    by simp_all
  from getResponse_Some [OF this, of toLowerCase userMessage]
  show "\<exists>out r. getResponse toLowerCase u lastQuestion userMessage = Inr out \<and>
         reply out = Some r \<and> r \<noteq> []"
    by blast
next
  assume a: "\<not> includesSome (toLowerCase userMessage) crisisKeywords \<and>
       (lastQuestion = NoQuestion \<or>
        (\<not> includesSome (toLowerCase userMessage) (map str [''yes'', ''yeah'', ''yep'', ''sure'']) \<and>
         \<not> includesSome (toLowerCase userMessage) (map str [''no'', ''nah'', ''nope'']))) \<and>
       \<not> list_ex (\<lambda>(keywords, key). includesSome (toLowerCase userMessage) keywords)
             spec_topicTable \<and>
       0 \<le> u \<and> u < 1"
  from getResponse_unmatched [of toLowerCase userMessage lastQuestion u] a
  obtain templates r where
    r: "map_of responses ''default'' = Some templates" "r \<in> set templates"
      "getResponse toLowerCase u lastQuestion userMessage =
         Inr \<lparr>reply = Some r, nextQuestion = lastQuestion, emergencyTriggered = False\<rparr>"
    by blast
  from responses_nonempty(2) [OF r(1)] r(2) have "r \<noteq> []"
    by auto
  with r show "\<exists>templates r. map_of responses ''default'' = Some templates \<and> r \<in> set templates \<and>
         r \<noteq> [] \<and>
         getResponse toLowerCase u lastQuestion userMessage =
           Inr \<lparr>reply = Some r, nextQuestion = lastQuestion, emergencyTriggered = False\<rparr>"
    by blast
next
  assume u: "0 \<le> u \<and> u < 1"
  from getResponse_unmatched [of toLowerCaseAscii "[]" NoQuestion u] empty_unmatched u
  obtain templates r where
    r: "map_of responses ''default'' = Some templates" "r \<in> set templates"
      "getResponse toLowerCaseAscii u NoQuestion [] =
         Inr \<lparr>reply = Some r, nextQuestion = NoQuestion, emergencyTriggered = False\<rparr>"
    by (auto simp add: toLowerCaseAscii_simps)
  from responses_nonempty(2) [OF r(1)] r(2) have "r \<noteq> []"
    by auto
  with r show "\<exists>templates r. map_of responses ''default'' = Some templates \<and> r \<in> set templates \<and>
         r \<noteq> [] \<and>
         getResponse toLowerCaseAscii u NoQuestion [] =
           Inr \<lparr>reply = Some r, nextQuestion = NoQuestion, emergencyTriggered = False\<rparr>"
    by blast
next
  assume u: "0 \<le> u \<and> u < 1"
  from getResponse_unmatched [of toLowerCaseAscii "[0x4F60, 0x597D]" NoQuestion u]
    nihao_unmatched u
  obtain templates r where
    r: "map_of responses ''default'' = Some templates" "r \<in> set templates"
      "getResponse toLowerCaseAscii u NoQuestion [0x4F60, 0x597D] =
         Inr \<lparr>reply = Some r, nextQuestion = NoQuestion, emergencyTriggered = False\<rparr>"
    by (auto simp add: toLowerCaseAscii_simps)
  from responses_nonempty(2) [OF r(1)] r(2) have "r \<noteq> []"
    by auto
  with r show "\<exists>templates r. map_of responses ''default'' = Some templates \<and> r \<in> set templates \<and>
         r \<noteq> [] \<and>
         getResponse toLowerCaseAscii u NoQuestion [0x4F60, 0x597D] =
           Inr \<lparr>reply = Some r, nextQuestion = NoQuestion, emergencyTriggered = False\<rparr>"
    by blast
qed

theorem getResponse_total_witness:
  "(\<exists>out r. getResponse toLowerCaseAscii 0 Dinner (str ''I know'') = Inr out \<and>
      reply out = Some r \<and> r \<noteq> [])
   \<and> (\<exists>templates r. map_of responses ''default'' = Some templates \<and> r \<in> set templates \<and>
         r \<noteq> [] \<and>
         getResponse toLowerCaseAscii 0 Breakfast [0x4F60, 0x597D] =
           Inr \<lparr>reply = Some r, nextQuestion = Breakfast, emergencyTriggered = False\<rparr>)
   \<and> (\<exists>templates r. map_of responses ''default'' = Some templates \<and> r \<in> set templates \<and>
         r \<noteq> [] \<and>
         getResponse toLowerCaseAscii 0 NoQuestion [] =
           Inr \<lparr>reply = Some r, nextQuestion = NoQuestion, emergencyTriggered = False\<rparr>)
   \<and> (\<exists>templates r. map_of responses ''default'' = Some templates \<and> r \<in> set templates \<and>
         r \<noteq> [] \<and>
         getResponse toLowerCaseAscii 0 NoQuestion [0x4F60, 0x597D] =
           Inr \<lparr>reply = Some r, nextQuestion = NoQuestion, emergencyTriggered = False\<rparr>)"
proof -
  have q: "Dinner \<in> {Breakfast, Lunch, Dinner, NoQuestion} \<and> (0::real) \<le> 0 \<and> (0::real) < 1"
    by simp
  have n: "\<not> includesSome (toLowerCaseAscii [0x4F60, 0x597D]) crisisKeywords"
    "\<not> includesSome (toLowerCaseAscii [0x4F60, 0x597D])
         (map str [''yes'', ''yeah'', ''yep'', ''sure''])"
    "\<not> includesSome (toLowerCaseAscii [0x4F60, 0x597D]) (map str [''no'', ''nah'', ''nope''])"
    "\<not> list_ex (\<lambda>(keywords, key). includesSome (toLowerCaseAscii [0x4F60, 0x597D]) keywords)
          spec_topicTable"
    by (simp_all add: includes_eval toLowerCaseAscii_def crisisKeywords_def spec_topicTable_def)
  from getResponse_total [of Dinner 0 toLowerCaseAscii "str ''I know''"] q
  have 1: "\<exists>out r. getResponse toLowerCaseAscii 0 Dinner (str ''I know'') = Inr out \<and>
      reply out = Some r \<and> r \<noteq> []"
    by blast
  from getResponse_total [of Breakfast 0 toLowerCaseAscii "[0x4F60, 0x597D]"] q n
  have 2: "\<exists>templates r. map_of responses ''default'' = Some templates \<and> r \<in> set templates \<and>
         r \<noteq> [] \<and>
         getResponse toLowerCaseAscii 0 Breakfast [0x4F60, 0x597D] =
           Inr \<lparr>reply = Some r, nextQuestion = Breakfast, emergencyTriggered = False\<rparr>"
    by blast
  from getResponse_total [of NoQuestion 0 toLowerCaseAscii "[]"] q
  have 3: "\<exists>templates r. map_of responses ''default'' = Some templates \<and> r \<in> set templates \<and>
         r \<noteq> [] \<and>
         getResponse toLowerCaseAscii 0 NoQuestion [] =
           Inr \<lparr>reply = Some r, nextQuestion = NoQuestion, emergencyTriggered = False\<rparr>"
    "\<exists>templates r. map_of responses ''default'' = Some templates \<and> r \<in> set templates \<and>
         r \<noteq> [] \<and>
         getResponse toLowerCaseAscii 0 NoQuestion [0x4F60, 0x597D] =
           Inr \<lparr>reply = Some r, nextQuestion = NoQuestion, emergencyTriggered = False\<rparr>"
    by blast+
  from 1 2 3 show ?thesis
    by blast
qed

text \<open>In particular for every value of \<^verbatim>\<open>lastQuestion\<close> the component can hold.\<close>

lemma reachableQuestion_response:
  assumes "reachableQuestion lastQuestion" "0 \<le> u" "u < 1"
  shows "\<exists>out r. getResponse toLowerCase u lastQuestion userMessage = Inr out \<and>
           reply out = Some r \<and> r \<noteq> []"
  using getResponse_Some [OF reachableQuestion_not_Mood [OF assms(1)] assms(2,3),
      of toLowerCase userMessage]
  by blast

lemma lunch_example_lowered:
  "\<not> includesSome (toLowerCaseAscii (str ''yeah I did'')) crisisKeywords"
  "includesSome (toLowerCaseAscii (str ''yeah I did'')) (map str [''yes'', ''yeah'', ''yep'', ''sure''])"
  by (simp_all add: includes_eval toLowerCaseAscii_def crisisKeywords_def)

text \<open>
  Claim C5. Let a question be pending (\<^verbatim>\<open>breakfast\<close>, \<^verbatim>\<open>lunch\<close> or
  \<^verbatim>\<open>dinner\<close>) and the lower-cased message hold no crisis keyword. If it contains one
  of yes, yeah, yep, sure, the reply is one of the templates under the question's key and
  \<^verbatim>\<open>lastQuestion\<close> becomes \<^verbatim>\<open>none\<close>. If it contains none of them but one of no,
  nah, nope, the reply is one of the templates under \<^verbatim>\<open>no\<close> followed by the
  question's key and \<^verbatim>\<open>lastQuestion\<close> becomes \<^verbatim>\<open>none\<close>. If it contains neither,
  the reply is the one of general keyword matching and \<^verbatim>\<open>lastQuestion\<close> is
  unchanged. With \<^verbatim>\<open>lunch\<close> pending and the message "yeah I did" the reply is one
  of the \<^verbatim>\<open>lunch\<close> templates and \<^verbatim>\<open>lastQuestion\<close> becomes \<^verbatim>\<open>none\<close>.
\<close>

theorem pending_question_answer:
  "(lastQuestion \<in> {Breakfast, Lunch, Dinner} \<and>
    \<not> includesSome (toLowerCase userMessage) crisisKeywords \<and> 0 \<le> u \<and> u < 1 \<longrightarrow>
      (includesSome (toLowerCase userMessage) (map str [''yes'', ''yeah'', ''yep'', ''sure'']) \<longrightarrow>
         (\<exists>templates r. map_of responses (questionKey lastQuestion) = Some templates \<and>
            r \<in> set templates \<and>
            getResponse toLowerCase u lastQuestion userMessage =
              Inr \<lparr>reply = Some r, nextQuestion = NoQuestion, emergencyTriggered = False\<rparr>))
      \<and> (\<not> includesSome (toLowerCase userMessage) (map str [''yes'', ''yeah'', ''yep'', ''sure'']) \<and>
          includesSome (toLowerCase userMessage) (map str [''no'', ''nah'', ''nope'']) \<longrightarrow>
         (\<exists>templates r. map_of responses (''no'' @ questionKey lastQuestion) = Some templates \<and>
            r \<in> set templates \<and>
            getResponse toLowerCase u lastQuestion userMessage =
              Inr \<lparr>reply = Some r, nextQuestion = NoQuestion, emergencyTriggered = False\<rparr>))
      \<and> (\<not> includesSome (toLowerCase userMessage) (map str [''yes'', ''yeah'', ''yep'', ''sure'']) \<and>
          \<not> includesSome (toLowerCase userMessage) (map str [''no'', ''nah'', ''nope'']) \<longrightarrow>
         (\<exists>r. keywordResponse (toLowerCase userMessage) u = Inr (Some r) \<and>
            getResponse toLowerCase u lastQuestion userMessage =
              Inr \<lparr>reply = Some r, nextQuestion = lastQuestion, emergencyTriggered = False\<rparr>)))
   \<and> (0 \<le> u \<and> u < 1 \<longrightarrow>
      (\<exists>templates r. map_of responses ''lunch'' = Some templates \<and> r \<in> set templates \<and>
         getResponse toLowerCaseAscii u Lunch (str ''yeah I did'') =
           Inr \<lparr>reply = Some r, nextQuestion = NoQuestion, emergencyTriggered = False\<rparr>))"
proof -
  have yes: "\<exists>templates r. map_of responses (questionKey q) = Some templates \<and>
            r \<in> set templates \<and>
            getResponse lc v q m =
              Inr \<lparr>reply = Some r, nextQuestion = NoQuestion, emergencyTriggered = False\<rparr>"
    if "q \<in> {Breakfast, Lunch, Dinner}" "\<not> includesSome (lc m) crisisKeywords"
      "0 \<le> v" "v < 1" "includesSome (lc m) (map str [''yes'', ''yeah'', ''yep'', ''sure''])"
    for q lc m v
  proof -
    from responses_question_keys(1) [OF that(1)] obtain templates where
      t: "map_of responses (questionKey q) = Some templates"
      by auto
    from pickResponse_Some [OF t that(3,4)] obtain r where
      r: "pickResponse (questionKey q) v = Inr (Some r)" "r \<in> set templates"
      by blast
    from that(1) have "q \<noteq> NoQuestion"
      by auto
    from getResponse_yes [where toLowerCase = lc and userMessage = m, OF that(2) this that(5)]
      t r show ?thesis
      by auto
  qed
  have no: "\<exists>templates r. map_of responses (''no'' @ questionKey q) = Some templates \<and>
            r \<in> set templates \<and>
            getResponse lc v q m =
              Inr \<lparr>reply = Some r, nextQuestion = NoQuestion, emergencyTriggered = False\<rparr>"
    if "q \<in> {Breakfast, Lunch, Dinner}" "\<not> includesSome (lc m) crisisKeywords"
      "0 \<le> v" "v < 1" "\<not> includesSome (lc m) (map str [''yes'', ''yeah'', ''yep'', ''sure''])"
      "includesSome (lc m) (map str [''no'', ''nah'', ''nope''])"
    for q lc m v
  proof -
    from responses_question_keys(2) [OF that(1)] obtain templates where
      t: "map_of responses (''no'' @ questionKey q) = Some templates"
      by auto
    from pickResponse_Some [OF t that(3,4)] obtain r where
      r: "pickResponse (''no'' @ questionKey q) v = Inr (Some r)" "r \<in> set templates"
      by blast
    from that(1) have "q \<noteq> NoQuestion"
      by auto
    from getResponse_no [where toLowerCase = lc and userMessage = m,
        OF that(2) this that(5,6)] t r
    show ?thesis
      by auto
  qed
  have neither: "\<exists>r. keywordResponse (lc m) v = Inr (Some r) \<and>
            getResponse lc v q m =
              Inr \<lparr>reply = Some r, nextQuestion = q, emergencyTriggered = False\<rparr>"
    if "\<not> includesSome (lc m) crisisKeywords" "0 \<le> v" "v < 1"
      "\<not> includesSome (lc m) (map str [''yes'', ''yeah'', ''yep'', ''sure''])"
      "\<not> includesSome (lc m) (map str [''no'', ''nah'', ''nope''])"
    for q lc m v
  proof -
    from keywordResponse_Some [OF that(2,3), of "lc m"] obtain r where
      r: "keywordResponse (lc m) v = Inr (Some r)"
      by blast
    from that(4,5) have "q = NoQuestion \<or>
      (\<not> includesSome (lc m) (map str [''yes'', ''yeah'', ''yep'', ''sure'']) \<and>
       \<not> includesSome (lc m) (map str [''no'', ''nah'', ''nope'']))"
      by simp
    from getResponse_general [where toLowerCase = lc and userMessage = m, OF that(1) this] r
    show ?thesis
      by auto
  qed
  have lunch: "\<exists>templates r. map_of responses ''lunch'' = Some templates \<and> r \<in> set templates \<and>
         getResponse toLowerCaseAscii u Lunch (str ''yeah I did'') =
           Inr \<lparr>reply = Some r, nextQuestion = NoQuestion, emergencyTriggered = False\<rparr>"
    if "0 \<le> u" "u < 1"
    using yes [of Lunch toLowerCaseAscii "str ''yeah I did''" u] lunch_example_lowered that
    by simp
  from yes [of lastQuestion toLowerCase userMessage u]
    no [of lastQuestion toLowerCase userMessage u]
    neither [of toLowerCase userMessage u lastQuestion] lunch
  show ?thesis
    by blast
qed

theorem pending_question_answer_witness:
  "(\<exists>templates r. map_of responses (questionKey Lunch) = Some templates \<and> r \<in> set templates \<and>
      getResponse toLowerCaseAscii (1 / 2) Lunch (str ''yeah I did'') =
        Inr \<lparr>reply = Some r, nextQuestion = NoQuestion, emergencyTriggered = False\<rparr>)
   \<and> (\<exists>templates r. map_of responses (''no'' @ questionKey Dinner) = Some templates \<and>
      r \<in> set templates \<and>
      getResponse toLowerCaseAscii (1 / 2) Dinner (str ''Nope'') =
        Inr \<lparr>reply = Some r, nextQuestion = NoQuestion, emergencyTriggered = False\<rparr>)
   \<and> (\<exists>r. keywordResponse (toLowerCaseAscii (str ''I feel happy'')) (1 / 2) = Inr (Some r) \<and>
      getResponse toLowerCaseAscii (1 / 2) Breakfast (str ''I feel happy'') =
        Inr \<lparr>reply = Some r, nextQuestion = Breakfast, emergencyTriggered = False\<rparr>)"
proof -
  have u: "(0::real) \<le> 1 / 2 \<and> (1 / 2 :: real) < 1"
    by simp
  have q: "Lunch \<in> {Breakfast, Lunch, Dinner}" "Dinner \<in> {Breakfast, Lunch, Dinner}"
    "Breakfast \<in> {Breakfast, Lunch, Dinner}"
    by simp_all
  have a: "\<not> includesSome (toLowerCaseAscii (str ''Nope'')) crisisKeywords"
    "\<not> includesSome (toLowerCaseAscii (str ''Nope'')) (map str [''yes'', ''yeah'', ''yep'', ''sure''])"
    "includesSome (toLowerCaseAscii (str ''Nope'')) (map str [''no'', ''nah'', ''nope''])"
    by (simp_all add: includes_eval toLowerCaseAscii_def crisisKeywords_def)
  have b: "\<not> includesSome (toLowerCaseAscii (str ''I feel happy'')) crisisKeywords"
    "\<not> includesSome (toLowerCaseAscii (str ''I feel happy''))
         (map str [''yes'', ''yeah'', ''yep'', ''sure''])"
    "\<not> includesSome (toLowerCaseAscii (str ''I feel happy'')) (map str [''no'', ''nah'', ''nope''])"
    by (simp_all add: includes_eval toLowerCaseAscii_def crisisKeywords_def)
  from pending_question_answer [of Lunch toLowerCaseAscii "str ''yeah I did''" "1 / 2"]
    q u lunch_example_lowered
  have 1: "\<exists>templates r. map_of responses (questionKey Lunch) = Some templates \<and>
      r \<in> set templates \<and>
      getResponse toLowerCaseAscii (1 / 2) Lunch (str ''yeah I did'') =
        Inr \<lparr>reply = Some r, nextQuestion = NoQuestion, emergencyTriggered = False\<rparr>"
    by blast
  from pending_question_answer [of Dinner toLowerCaseAscii "str ''Nope''" "1 / 2"] q u a
  have 2: "\<exists>templates r. map_of responses (''no'' @ questionKey Dinner) = Some templates \<and>
      r \<in> set templates \<and>
      getResponse toLowerCaseAscii (1 / 2) Dinner (str ''Nope'') =
        Inr \<lparr>reply = Some r, nextQuestion = NoQuestion, emergencyTriggered = False\<rparr>"
    by blast
  from pending_question_answer [of Breakfast toLowerCaseAscii "str ''I feel happy''" "1 / 2"]
    q u b
  have 3: "\<exists>r. keywordResponse (toLowerCaseAscii (str ''I feel happy'')) (1 / 2) = Inr (Some r) \<and>
      getResponse toLowerCaseAscii (1 / 2) Breakfast (str ''I feel happy'') =
        Inr \<lparr>reply = Some r, nextQuestion = Breakfast, emergencyTriggered = False\<rparr>"
    by blast
  from 1 2 3 show ?thesis
    by blast
qed

lemma spec_keywordResponse_first:
  assumes "i < length spec_topicTable"
    and "includesSome lowercaseMessage (fst (spec_topicTable ! i))"
    and "\<forall>j<i. \<not> includesSome lowercaseMessage (fst (spec_topicTable ! j))"
  shows "spec_keywordResponse lowercaseMessage u = pickResponse (snd (spec_topicTable ! i)) u"
proof -
  have "find (\<lambda>(keywords, key). includesSome lowercaseMessage keywords) spec_topicTable =
        Some (spec_topicTable ! i)"
    unfolding find_Some_iff using assms by (auto simp add: case_prod_beta)
  then show ?thesis
    by (simp add: spec_keywordResponse_def case_prod_beta)
qed

lemma funfact_example_lowered:
  "\<not> includesSome (toLowerCaseAscii (str ''tell me a fun fact'')) crisisKeywords"
  "stringIncludes (toLowerCaseAscii (str ''tell me a fun fact'')) (str ''fun fact'')"
  by (simp_all add: includes_eval toLowerCaseAscii_def crisisKeywords_def)

lemma sad_happy_example_lowered:
  "\<not> includesSome (toLowerCaseAscii (str ''Happy yesterday, SAD today'')) crisisKeywords"
  "\<not> includesSome (toLowerCaseAscii (str ''Happy yesterday, SAD today'')) (fst (spec_topicTable ! 0))"
  "includesSome (toLowerCaseAscii (str ''Happy yesterday, SAD today'')) (fst (spec_topicTable ! 1))"
  "includesSome (toLowerCaseAscii (str ''Happy yesterday, SAD today'')) (fst (spec_topicTable ! 2))"
  by (simp_all add: includes_eval toLowerCaseAscii_def crisisKeywords_def spec_topicTable_def)

text \<open>
  Claim C9. The chain of keyword tests is the first match in the ordered topic table
  (fun fact, sad, happy, stressed, anxious), by containment of a keyword in the
  lower-cased message: the earliest topic with a keyword in the message supplies the
  reply, and the default templates do when no topic has one. It is what
  \<^verbatim>\<open>getResponse\<close> answers when the message holds no crisis keyword and either no
  question is pending or the message holds none of the yes and no words. With no
  pending question, "tell me a fun fact" gets one of the fun-fact templates (the hour is
  no argument of \<^verbatim>\<open>getResponse\<close>), and "Happy yesterday, SAD today", which matches
  both the sad and the happy topic, gets one of the sad templates.
\<close>

theorem keyword_matching_order:
  "keywordResponse lowercaseMessage u = spec_keywordResponse lowercaseMessage u
   \<and> map snd spec_topicTable = [''funfact'', ''sad'', ''happy'', ''stressed'', ''anxious'']
   \<and> (i < length spec_topicTable \<and>
       includesSome lowercaseMessage (fst (spec_topicTable ! i)) \<and>
       (\<forall>j<i. \<not> includesSome lowercaseMessage (fst (spec_topicTable ! j))) \<longrightarrow>
       keywordResponse lowercaseMessage u = pickResponse (snd (spec_topicTable ! i)) u)
   \<and> (\<not> list_ex (\<lambda>(keywords, key). includesSome lowercaseMessage keywords) spec_topicTable \<longrightarrow>
       keywordResponse lowercaseMessage u = pickResponse ''default'' u)
   \<and> (\<not> includesSome (toLowerCase userMessage) crisisKeywords \<and>
       (lastQuestion = NoQuestion \<or>
        (\<not> includesSome (toLowerCase userMessage) (map str [''yes'', ''yeah'', ''yep'', ''sure'']) \<and>
         \<not> includesSome (toLowerCase userMessage) (map str [''no'', ''nah'', ''nope'']))) \<and>
       0 \<le> u \<and> u < 1 \<longrightarrow>
       (\<exists>key templates r. map_of responses key = Some templates \<and> r \<in> set templates \<and>
          spec_keywordResponse (toLowerCase userMessage) u = pickResponse key u \<and>
          pickResponse key u = Inr (Some r) \<and>
          getResponse toLowerCase u lastQuestion userMessage =
            Inr \<lparr>reply = Some r, nextQuestion = lastQuestion, emergencyTriggered = False\<rparr>))
   \<and> (0 \<le> u \<and> u < 1 \<longrightarrow>
       (\<exists>templates r. map_of responses ''funfact'' = Some templates \<and> r \<in> set templates \<and>
          getResponse toLowerCaseAscii u NoQuestion (str ''tell me a fun fact'') =
            Inr \<lparr>reply = Some r, nextQuestion = NoQuestion, emergencyTriggered = False\<rparr>))
   \<and> (0 \<le> u \<and> u < 1 \<longrightarrow>
       (\<exists>templates r. map_of responses ''sad'' = Some templates \<and> r \<in> set templates \<and>
          getResponse toLowerCaseAscii u NoQuestion (str ''Happy yesterday, SAD today'') =
            Inr \<lparr>reply = Some r, nextQuestion = NoQuestion, emergencyTriggered = False\<rparr>))"
proof (intro conjI impI)
  show "keywordResponse lowercaseMessage u = spec_keywordResponse lowercaseMessage u"
    by (rule keywordResponse_spec)
  show "map snd spec_topicTable = [''funfact'', ''sad'', ''happy'', ''stressed'', ''anxious'']"
    by (simp add: spec_topicTable_def)
next
  assume "i < length spec_topicTable \<and>
       includesSome lowercaseMessage (fst (spec_topicTable ! i)) \<and>
       (\<forall>j<i. \<not> includesSome lowercaseMessage (fst (spec_topicTable ! j)))"
  then show "keywordResponse lowercaseMessage u = pickResponse (snd (spec_topicTable ! i)) u"
    by (simp add: keywordResponse_spec spec_keywordResponse_first)
next
  assume "\<not> list_ex (\<lambda>(keywords, key). includesSome lowercaseMessage keywords) spec_topicTable"
  then show "keywordResponse lowercaseMessage u = pickResponse ''default'' u"
    by (rule keywordResponse_default)
next
  assume a: "\<not> includesSome (toLowerCase userMessage) crisisKeywords \<and>
       (lastQuestion = NoQuestion \<or>
        (\<not> includesSome (toLowerCase userMessage) (map str [''yes'', ''yeah'', ''yep'', ''sure'']) \<and>
         \<not> includesSome (toLowerCase userMessage) (map str [''no'', ''nah'', ''nope'']))) \<and>
       0 \<le> u \<and> u < 1"
  from keywordResponse_key [of "toLowerCase userMessage" u] obtain key where
    k: "key \<in> set topicKeys"
      "keywordResponse (toLowerCase userMessage) u = pickResponse key u"
    by blast
  from topicKeys_responses [OF k(1)] obtain templates where
    t: "map_of responses key = Some templates"
    by auto
  from a have u: "0 \<le> u" "u < 1"
    by simp_all
  from pickResponse_Some [OF t u] obtain r where
    r: "pickResponse key u = Inr (Some r)" "r \<in> set templates"
    by blast
  from a have "getResponse toLowerCase u lastQuestion userMessage =
     (case keywordResponse (toLowerCase userMessage) u of
        Inl e \<Rightarrow> Inl e
      | Inr r \<Rightarrow> Inr \<lparr>reply = r, nextQuestion = lastQuestion, emergencyTriggered = False\<rparr>)"
    by (intro getResponse_general) simp_all
  with k(2) r(1) have g: "getResponse toLowerCase u lastQuestion userMessage =
      Inr \<lparr>reply = Some r, nextQuestion = lastQuestion, emergencyTriggered = False\<rparr>"
    by simp
  have s: "spec_keywordResponse (toLowerCase userMessage) u = pickResponse key u"
    using k(2) by (simp add: keywordResponse_spec)
  from t r s g
  show "\<exists>key templates r. map_of responses key = Some templates \<and> r \<in> set templates \<and>
          spec_keywordResponse (toLowerCase userMessage) u = pickResponse key u \<and>
          pickResponse key u = Inr (Some r) \<and>
          getResponse toLowerCase u lastQuestion userMessage =
            Inr \<lparr>reply = Some r, nextQuestion = lastQuestion, emergencyTriggered = False\<rparr>"
    by blast
next
  assume u: "0 \<le> u \<and> u < 1"
  obtain templates where t: "map_of responses ''funfact'' = Some templates"
    using responses_keys(3) by auto
  from u pickResponse_Some [OF t] obtain r where
    r: "pickResponse ''funfact'' u = Inr (Some r)" "r \<in> set templates"
    by blast
  have "keywordResponse (toLowerCaseAscii (str ''tell me a fun fact'')) u =
        pickResponse ''funfact'' u"
    using funfact_example_lowered(2) by (simp add: keywordResponse_def)
  with r t funfact_example_lowered(1)
  show "\<exists>templates r. map_of responses ''funfact'' = Some templates \<and> r \<in> set templates \<and>
          getResponse toLowerCaseAscii u NoQuestion (str ''tell me a fun fact'') =
            Inr \<lparr>reply = Some r, nextQuestion = NoQuestion, emergencyTriggered = False\<rparr>"
    by (simp add: getResponse_general
        [where toLowerCase = toLowerCaseAscii and userMessage = "str ''tell me a fun fact''"])
next
  assume u: "0 \<le> u \<and> u < 1"
  let ?m = "str ''Happy yesterday, SAD today''"
  obtain templates where t: "map_of responses ''sad'' = Some templates"
    using responses_keys(4) by auto
  from u pickResponse_Some [OF t] obtain r where
    r: "pickResponse ''sad'' u = Inr (Some r)" "r \<in> set templates"
    by blast
  have "spec_keywordResponse (toLowerCaseAscii ?m) u =
        pickResponse (snd (spec_topicTable ! 1)) u"
    using sad_happy_example_lowered(2,3)
    by (intro spec_keywordResponse_first) (simp_all add: spec_topicTable_def)
  then have "keywordResponse (toLowerCaseAscii ?m) u = pickResponse ''sad'' u"
    by (simp add: keywordResponse_spec spec_topicTable_def)
  with r t sad_happy_example_lowered(1)
  show "\<exists>templates r. map_of responses ''sad'' = Some templates \<and> r \<in> set templates \<and>
          getResponse toLowerCaseAscii u NoQuestion ?m =
            Inr \<lparr>reply = Some r, nextQuestion = NoQuestion, emergencyTriggered = False\<rparr>"
    by (simp add: getResponse_general
        [where toLowerCase = toLowerCaseAscii and userMessage = ?m])
qed

theorem keyword_matching_order_witness:
  "keywordResponse (toLowerCaseAscii (str ''Happy yesterday, SAD today'')) (1 / 2) =
     pickResponse ''sad'' (1 / 2)
   \<and> keywordResponse [] (1 / 2) = pickResponse ''default'' (1 / 2)
   \<and> (\<exists>key templates r. map_of responses key = Some templates \<and> r \<in> set templates \<and>
        spec_keywordResponse (toLowerCaseAscii (str ''tell me a fun fact'')) (1 / 2) =
          pickResponse key (1 / 2) \<and>
        pickResponse key (1 / 2) = Inr (Some r) \<and>
        getResponse toLowerCaseAscii (1 / 2) NoQuestion (str ''tell me a fun fact'') =
          Inr \<lparr>reply = Some r, nextQuestion = NoQuestion, emergencyTriggered = False\<rparr>)
   \<and> (\<exists>templates r. map_of responses ''funfact'' = Some templates \<and> r \<in> set templates \<and>
        getResponse toLowerCaseAscii (1 / 2) NoQuestion (str ''tell me a fun fact'') =
          Inr \<lparr>reply = Some r, nextQuestion = NoQuestion, emergencyTriggered = False\<rparr>)
   \<and> (\<exists>templates r. map_of responses ''sad'' = Some templates \<and> r \<in> set templates \<and>
        getResponse toLowerCaseAscii (1 / 2) NoQuestion (str ''Happy yesterday, SAD today'') =
          Inr \<lparr>reply = Some r, nextQuestion = NoQuestion, emergencyTriggered = False\<rparr>)"
proof -
  have u: "(0::real) \<le> 1 / 2 \<and> (1 / 2 :: real) < 1"
    by simp
  have i: "(1::nat) < length spec_topicTable" "snd (spec_topicTable ! 1) = ''sad''"
    "\<forall>j<(1::nat). \<not> includesSome (toLowerCaseAscii (str ''Happy yesterday, SAD today''))
        (fst (spec_topicTable ! j))"
    using sad_happy_example_lowered(2) by (simp_all add: spec_topicTable_def)
  have "1 < length spec_topicTable \<and>
       includesSome (toLowerCaseAscii (str ''Happy yesterday, SAD today''))
         (fst (spec_topicTable ! 1)) \<and>
       (\<forall>j<1. \<not> includesSome (toLowerCaseAscii (str ''Happy yesterday, SAD today''))
         (fst (spec_topicTable ! j))) \<longrightarrow>
       keywordResponse (toLowerCaseAscii (str ''Happy yesterday, SAD today'')) (1 / 2) =
         pickResponse (snd (spec_topicTable ! 1)) (1 / 2)"
    using keyword_matching_order
      [of "toLowerCaseAscii (str ''Happy yesterday, SAD today'')" "1 / 2" 1 toLowerCaseAscii
        "str ''tell me a fun fact''" NoQuestion]
    by blast
  with i(1,3) sad_happy_example_lowered(3)
  have "keywordResponse (toLowerCaseAscii (str ''Happy yesterday, SAD today'')) (1 / 2) =
         pickResponse (snd (spec_topicTable ! 1)) (1 / 2)"
    by blast
  then have 1: "keywordResponse (toLowerCaseAscii (str ''Happy yesterday, SAD today'')) (1 / 2) =
     pickResponse ''sad'' (1 / 2)"
    by (simp only: i(2))
  from keyword_matching_order [of "[]" "1 / 2" 0 toLowerCaseAscii "[]" NoQuestion]
    empty_unmatched(2)
  have 2: "keywordResponse [] (1 / 2) = pickResponse ''default'' (1 / 2)"
    by blast
  from keyword_matching_order
    [of "[]" "1 / 2" 0 toLowerCaseAscii "str ''tell me a fun fact''" NoQuestion]
    funfact_example_lowered(1) u
  have 3: "\<exists>key templates r. map_of responses key = Some templates \<and> r \<in> set templates \<and>
        spec_keywordResponse (toLowerCaseAscii (str ''tell me a fun fact'')) (1 / 2) =
          pickResponse key (1 / 2) \<and>
        pickResponse key (1 / 2) = Inr (Some r) \<and>
        getResponse toLowerCaseAscii (1 / 2) NoQuestion (str ''tell me a fun fact'') =
          Inr \<lparr>reply = Some r, nextQuestion = NoQuestion, emergencyTriggered = False\<rparr>"
    by blast
  from keyword_matching_order [of "[]" "1 / 2" 0 toLowerCaseAscii "[]" NoQuestion] u
  have 4: "\<exists>templates r. map_of responses ''funfact'' = Some templates \<and> r \<in> set templates \<and>
        getResponse toLowerCaseAscii (1 / 2) NoQuestion (str ''tell me a fun fact'') =
          Inr \<lparr>reply = Some r, nextQuestion = NoQuestion, emergencyTriggered = False\<rparr>"
    "\<exists>templates r. map_of responses ''sad'' = Some templates \<and> r \<in> set templates \<and>
        getResponse toLowerCaseAscii (1 / 2) NoQuestion (str ''Happy yesterday, SAD today'') =
          Inr \<lparr>reply = Some r, nextQuestion = NoQuestion, emergencyTriggered = False\<rparr>"
    by blast+
  from 1 2 3 4 show ?thesis
    by blast
qed

end
